theory Spec2Isabelle
  imports Main "HOL-Library.Word" "HOL-Library.Multiset"
begin

section \<open>Python values used by fwtools\<close>

text \<open>
  The tools are Python 2 scripts: a \<open>str\<close> is a byte string, modelled as
  \<^typ>\<open>string\<close> (a list of 8-bit characters). Exceptions are values of the
  type \<open>error\<close>; a function that may raise returns \<open>error + 'a\<close>.
\<close>

datatype error = EOFError | StructError | TypeError | IndexError | IOError

text \<open>\<open>s.rstrip('\x00')\<close> and \<open>s.strip('\x00')\<close>.\<close>

definition rstrip_nul :: "string \<Rightarrow> string" where
  "rstrip_nul s = rev (dropWhile (\<lambda>c. c = CHR 0x00) (rev s))"

definition strip_nul :: "string \<Rightarrow> string" where
  "strip_nul s = dropWhile (\<lambda>c. c = CHR 0x00) (rstrip_nul s)"

text \<open>\<open>'%i' % n\<close> for a non-negative integer: its decimal digits.\<close>

definition digit_char :: "nat \<Rightarrow> char" where
  "digit_char d = char_of (48 + d)"

fun show_nat :: "nat \<Rightarrow> string" where
  "show_nat n = (if n < 10 then [digit_char n]
                 else show_nat (n div 10) @ [digit_char (n mod 10)])"

declare show_nat.simps [simp del]

text \<open>\<open>xs[i]\<close> on a Python list: a negative index counts from the end, and an
  index outside the list raises \<open>IndexError\<close>.\<close>

definition py_index :: "'a list \<Rightarrow> int \<Rightarrow> error + 'a" where
  "py_index xs i =
     (if i < 0
      then (if - i \<le> int (length xs) then Inr (xs ! nat (int (length xs) + i))
            else Inl IndexError)
      else (if i < int (length xs) then Inr (xs ! nat i) else Inl IndexError))"

section \<open>The file object\<close>

text \<open>
  An open file is its bytes and the current position. \<open>f.read(n)\<close> returns the
  bytes that are there, at most \<open>n\<close> of them (all of them for a negative \<open>n\<close>),
  and advances the position by what it returned. \<open>f.seek(off, 0)\<close> sets the
  position, also beyond the end of the file, and raises \<open>IOError\<close> for a negative
  offset. \<open>f.tell()\<close> is the position.
\<close>

record pyfile =
  fdata :: string
  fpos :: nat

definition fread :: "pyfile \<Rightarrow> int \<Rightarrow> string \<times> pyfile" where
  "fread fl n =
     (let rest = drop (fpos fl) (fdata fl);
          s = (if n < 0 then rest else take (nat n) rest)
      in (s, fl\<lparr>fpos := fpos fl + length s\<rparr>))"

definition fseek :: "pyfile \<Rightarrow> int \<Rightarrow> error + pyfile" where
  "fseek fl off = (if off < 0 then Inl IOError else Inr (fl\<lparr>fpos := nat off\<rparr>))"

definition ftell :: "pyfile \<Rightarrow> nat" where
  "ftell fl = fpos fl"

section \<open>The struct module\<close>

text \<open>
  The format characters the tools use: \<open>H\<close> (2 bytes), \<open>L\<close> and \<open>I\<close> (4 bytes),
  \<open>B\<close> (1 byte), all unsigned, and \<open>8s\<close> (8 raw bytes). Every \<open>structfmt\<close>
  starts with \<open><\<close>: little-endian, standard sizes, no padding. The two formats
  without a prefix, \<open>'I'\<close> and \<open>'II'\<close>, are native; the model takes the host to
  be little-endian with a 4-byte \<open>unsigned int\<close>, where they are \<open><I\<close> and
  \<open><II\<close>.
\<close>

datatype fmtcode = H | L | I | B | S8

datatype val = VInt nat | VStr string

fun fmt_size :: "fmtcode \<Rightarrow> nat" where
  "fmt_size H = 2"
| "fmt_size L = 4"
| "fmt_size I = 4"
| "fmt_size B = 1"
| "fmt_size S8 = 8"

definition calcsize :: "fmtcode list \<Rightarrow> nat" where
  "calcsize fmt = sum_list (map fmt_size fmt)"

fun le_nat :: "string \<Rightarrow> nat" where
  "le_nat [] = 0"
| "le_nat (c # cs) = of_char c + 256 * le_nat cs"

fun unpack_field :: "fmtcode \<Rightarrow> string \<Rightarrow> val" where
  "unpack_field S8 bs = VStr bs"
| "unpack_field c bs = VInt (le_nat bs)"

fun unpack_fields :: "fmtcode list \<Rightarrow> string \<Rightarrow> val list" where
  "unpack_fields [] bs = []"
| "unpack_fields (c # cs) bs =
     unpack_field c (take (fmt_size c) bs) # unpack_fields cs (drop (fmt_size c) bs)"

text \<open>\<open>struct.unpack(fmt, s)\<close> raises \<open>struct.error\<close> unless \<open>s\<close> has exactly
  \<open>calcsize(fmt)\<close> bytes.\<close>

definition struct_unpack :: "fmtcode list \<Rightarrow> string \<Rightarrow> error + val list" where
  "struct_unpack fmt s =
     (if length s \<noteq> calcsize fmt then Inl StructError else Inr (unpack_fields fmt s))"

section \<open>The record kinds\<close>

text \<open>
  Each record kind of \<open>parsecoff.py\<close> is a named tuple with a \<open>structfmt\<close>.
  The fields are unsigned integers of the width the format gives them, so they
  are words; the \<open>8s\<close> field is the raw 8-byte name. Field names carry the
  prefix of their record kind (\<open>fh\<close>, \<open>oh\<close>, \<open>sh\<close>, \<open>rh\<close>, \<open>sy\<close>), since
  several kinds share \<open>magic\<close>, \<open>vaddr\<close>, \<open>flags\<close>, \<open>reserved\<close>, \<open>type\<close> and
  \<open>orig_name\<close>.
\<close>

record FileHdr =
  fh_magic :: "16 word"
  fh_nscns :: "16 word"
  fh_timdat :: "32 word"
  fh_symptr :: "32 word"
  fh_nsyms :: "32 word"
  fh_opthdr :: "16 word"
  fh_flags :: "16 word"
  fh_target_id :: "16 word"

record OptHdr =
  oh_magic :: "16 word"
  oh_vstamp :: "16 word"
  oh_tsize :: "32 word"
  oh_dsize :: "32 word"
  oh_bsize :: "32 word"
  oh_entry :: "32 word"
  oh_text_start :: "32 word"
  oh_data_start :: "32 word"

record SecHdr =
  sh_orig_name :: string
  sh_paddr :: "32 word"
  sh_vaddr :: "32 word"
  sh_size :: "32 word"
  sh_scnptr :: "32 word"
  sh_relptr :: "32 word"
  sh_lnnoptr :: "32 word"
  sh_nreloc :: "32 word"
  sh_nlnno :: "32 word"
  sh_flags :: "32 word"
  sh_reserved :: "16 word"
  sh_page :: "16 word"

record RelocHdr =
  rh_vaddr :: "32 word"
  rh_symndx :: "32 word"
  rh_reserved :: "16 word"
  rh_type :: "16 word"

record SymentHdr =
  sy_orig_name :: string
  sy_value :: "32 word"
  sy_scnum :: "16 word"
  sy_type :: "16 word"
  sy_sclass :: "8 word"
  sy_numaux :: "8 word"

text \<open>
  A record kind as \<open>readstruct\<close> uses it: its format, and its constructor
  applied to the items of the unpacked tuple. The constructor is
  \<open>None\<close> (Python's \<open>TypeError\<close>) on a tuple of another shape.
\<close>

record 'a structtype =
  structfmt :: "fmtcode list"
  construct :: "val list \<Rightarrow> 'a option"

definition structlen :: "'a structtype \<Rightarrow> nat" where
  "structlen T = calcsize (structfmt T)"

definition new_FileHdr :: "val list \<Rightarrow> FileHdr option" where
  "new_FileHdr vs =
     (case vs of
        [VInt a1, VInt a2, VInt a3, VInt a4, VInt a5, VInt a6, VInt a7, VInt a8] \<Rightarrow>
          Some \<lparr>fh_magic = of_nat a1, fh_nscns = of_nat a2, fh_timdat = of_nat a3,
                fh_symptr = of_nat a4, fh_nsyms = of_nat a5, fh_opthdr = of_nat a6,
                fh_flags = of_nat a7, fh_target_id = of_nat a8\<rparr>
      | _ \<Rightarrow> None)"

definition new_OptHdr :: "val list \<Rightarrow> OptHdr option" where
  "new_OptHdr vs =
     (case vs of
        [VInt a1, VInt a2, VInt a3, VInt a4, VInt a5, VInt a6, VInt a7, VInt a8] \<Rightarrow>
          Some \<lparr>oh_magic = of_nat a1, oh_vstamp = of_nat a2, oh_tsize = of_nat a3,
                oh_dsize = of_nat a4, oh_bsize = of_nat a5, oh_entry = of_nat a6,
                oh_text_start = of_nat a7, oh_data_start = of_nat a8\<rparr>
      | _ \<Rightarrow> None)"

definition new_SecHdr :: "val list \<Rightarrow> SecHdr option" where
  "new_SecHdr vs =
     (case vs of
        [VStr nm, VInt a1, VInt a2, VInt a3, VInt a4, VInt a5, VInt a6, VInt a7,
         VInt a8, VInt a9, VInt a10, VInt a11] \<Rightarrow>
          Some \<lparr>sh_orig_name = nm, sh_paddr = of_nat a1, sh_vaddr = of_nat a2,
                sh_size = of_nat a3, sh_scnptr = of_nat a4, sh_relptr = of_nat a5,
                sh_lnnoptr = of_nat a6, sh_nreloc = of_nat a7, sh_nlnno = of_nat a8,
                sh_flags = of_nat a9, sh_reserved = of_nat a10, sh_page = of_nat a11\<rparr>
      | _ \<Rightarrow> None)"

definition new_RelocHdr :: "val list \<Rightarrow> RelocHdr option" where
  "new_RelocHdr vs =
     (case vs of
        [VInt a1, VInt a2, VInt a3, VInt a4] \<Rightarrow>
          Some \<lparr>rh_vaddr = of_nat a1, rh_symndx = of_nat a2, rh_reserved = of_nat a3,
                rh_type = of_nat a4\<rparr>
      | _ \<Rightarrow> None)"

definition new_SymentHdr :: "val list \<Rightarrow> SymentHdr option" where
  "new_SymentHdr vs =
     (case vs of
        [VStr nm, VInt a1, VInt a2, VInt a3, VInt a4, VInt a5] \<Rightarrow>
          Some \<lparr>sy_orig_name = nm, sy_value = of_nat a1, sy_scnum = of_nat a2,
                sy_type = of_nat a3, sy_sclass = of_nat a4, sy_numaux = of_nat a5\<rparr>
      | _ \<Rightarrow> None)"

definition FileHdr_type :: "FileHdr structtype" where
  "FileHdr_type = \<lparr>structfmt = [H, H, L, L, L, H, H, H], construct = new_FileHdr\<rparr>"

definition OptHdr_type :: "OptHdr structtype" where
  "OptHdr_type = \<lparr>structfmt = [H, H, L, L, L, L, L, L], construct = new_OptHdr\<rparr>"

definition SecHdr_type :: "SecHdr structtype" where
  "SecHdr_type =
     \<lparr>structfmt = [S8, L, L, L, L, L, L, L, L, L, H, H], construct = new_SecHdr\<rparr>"

definition RelocHdr_type :: "RelocHdr structtype" where
  "RelocHdr_type = \<lparr>structfmt = [L, L, H, H], construct = new_RelocHdr\<rparr>"

definition SymentHdr_type :: "SymentHdr structtype" where
  "SymentHdr_type = \<lparr>structfmt = [S8, L, H, H, B, B], construct = new_SymentHdr\<rparr>"

text \<open>\<open>SecHdr.name\<close>: the raw name without its trailing null bytes.\<close>

definition sh_name :: "SecHdr \<Rightarrow> string" where
  "sh_name s = rstrip_nul (sh_orig_name s)"

text \<open>
  \<open>SymentHdr.name\<close> and \<open>SymentHdr.offset\<close>. Both unpack the raw name as two
  words, \<open>struct.unpack('II', self.orig_name)\<close>, which raises unless the raw
  name has 8 bytes. \<open>name\<close> is \<open>None\<close> when the first word is 0; \<open>offset\<close> is
  \<open>-1\<close> when it is not. Both items of the unpacked pair are integers; the
  branch for a string item is there for the type of \<open>val\<close> only.
\<close>

definition sy_name :: "SymentHdr \<Rightarrow> error + string option" where
  "sy_name s =
     (case struct_unpack [I, I] (sy_orig_name s) of
        Inl e \<Rightarrow> Inl e
      | Inr dat \<Rightarrow>
          (if dat ! 0 = VInt 0 then Inr None else Inr (Some (rstrip_nul (sy_orig_name s)))))"

definition sy_offset :: "SymentHdr \<Rightarrow> error + int" where
  "sy_offset s =
     (case struct_unpack [I, I] (sy_orig_name s) of
        Inl e \<Rightarrow> Inl e
      | Inr dat \<Rightarrow>
          (if dat ! 0 \<noteq> VInt 0 then Inr (- 1)
           else (case dat ! 1 of VInt w1 \<Rightarrow> Inr (int w1) | VStr b \<Rightarrow> Inl TypeError)))"

section \<open>The container parser\<close>

text \<open>\<open>Coff.readstruct\<close>.\<close>

definition readstruct :: "'a structtype \<Rightarrow> pyfile \<Rightarrow> error + ('a \<times> pyfile)" where
  "readstruct T fl =
     (case fread fl (int (structlen T)) of
        (hdr, fl') \<Rightarrow>
          if length hdr \<noteq> structlen T then Inl EOFError
          else (case struct_unpack (structfmt T) hdr of
                  Inl e \<Rightarrow> Inl e
                | Inr vs \<Rightarrow>
                    (case construct T vs of
                       None \<Rightarrow> Inl TypeError
                     | Some x \<Rightarrow> Inr (x, fl'))))"

text \<open>\<open>[self.readstruct(T) for _ in range(n)]\<close>: the first failure ends it.\<close>

fun readstructs :: "'a structtype \<Rightarrow> nat \<Rightarrow> pyfile \<Rightarrow> error + ('a list \<times> pyfile)" where
  "readstructs T 0 fl = Inr ([], fl)"
| "readstructs T (Suc n) fl =
     (case readstruct T fl of
        Inl e \<Rightarrow> Inl e
      | Inr (x, fl1) \<Rightarrow>
          (case readstructs T n fl1 of
             Inl e \<Rightarrow> Inl e
           | Inr (xs, fl2) \<Rightarrow> Inr (x # xs, fl2)))"

text \<open>
  The relocation loop: for every section with a non-zero \<open>relptr\<close>, in section
  order, seek there, read \<open>nreloc\<close> entries and store them in the dictionary
  under the section's name.
\<close>

definition relocsecs :: "SecHdr list \<Rightarrow> (string \<times> 32 word \<times> 32 word) list" where
  "relocsecs secs =
     map (\<lambda>s. (sh_name s, sh_relptr s, sh_nreloc s)) (filter (\<lambda>s. sh_relptr s \<noteq> 0) secs)"

fun reloc_loop ::
  "(string \<times> 32 word \<times> 32 word) list \<Rightarrow> pyfile \<Rightarrow> (string \<rightharpoonup> RelocHdr list) \<Rightarrow>
     error + ((string \<rightharpoonup> RelocHdr list) \<times> pyfile)" where
  "reloc_loop [] fl m = Inr (m, fl)"
| "reloc_loop ((nm, relptr, nreloc) # rest) fl m =
     (case fseek fl (uint relptr) of
        Inl e \<Rightarrow> Inl e
      | Inr fl1 \<Rightarrow>
          (case readstructs RelocHdr_type (unat nreloc) fl1 of
             Inl e \<Rightarrow> Inl e
           | Inr (rl, fl2) \<Rightarrow> reloc_loop rest fl2 (m(nm \<mapsto> rl))))"

text \<open>
  The inner loop of the string-table scan, entered with the first byte read:
  \<open>while b != '' and b != '\x00': s = s + b; b = self.f.read(1)\<close>.
\<close>

function inner_loop :: "string \<Rightarrow> string \<Rightarrow> pyfile \<Rightarrow> string \<times> pyfile" where
  "inner_loop s b fl =
     (if b \<noteq> [] \<and> b \<noteq> [CHR 0x00]
      then (case fread fl 1 of (b', fl') \<Rightarrow> inner_loop (s @ b) b' fl')
      else (s, fl))"
  by pat_completeness auto
termination
  by (relation "measure (\<lambda>(s, b, fl). (length (fdata fl) - fpos fl) + length b)")
     (auto simp: fread_def Let_def min_def neq_Nil_conv)

declare inner_loop.simps [simp del]

text \<open>
  The outer loop, \<open>while True\<close>. It leaves only through \<open>break\<close>, when the
  offset of the next string reaches \<open>nstrs\<close>; the loop that never gets there
  does not return, which is the value \<open>None\<close>.
\<close>

partial_function (option) strings_loop ::
  "pyfile \<Rightarrow> nat \<Rightarrow> nat \<Rightarrow> (int \<times> string) list \<Rightarrow> ((int \<times> string) list \<times> pyfile) option" where
  "strings_loop fl baseoff nstrs acc =
     (let off = int (ftell fl) - int baseoff in
      if off \<ge> int nstrs then Some (acc, fl)
      else (case fread fl 1 of
              (b, fl1) \<Rightarrow>
                (case inner_loop [] b fl1 of
                   (s, fl2) \<Rightarrow> strings_loop fl2 baseoff nstrs (acc @ [(off, s)]))))"

declare strings_loop.simps [code]

text \<open>
  The parsed container. \<open>opthdr\<close> is set only when the file header's
  \<open>opthdr\<close> is not 0; \<open>reloc\<close> is a dictionary from section names to
  relocation entries.
\<close>

record Coff =
  cfile :: pyfile
  filehdr :: FileHdr
  opthdr :: "OptHdr option"
  sechdr :: "SecHdr list"
  reloc :: "string \<rightharpoonup> RelocHdr list"
  symbols :: "SymentHdr list"
  strings :: "(int \<times> string) list"

text \<open>
  The optional header: read when \<open>filehdr.opthdr != 0\<close>.
\<close>

definition read_opthdr :: "FileHdr \<Rightarrow> pyfile \<Rightarrow> error + (OptHdr option \<times> pyfile)" where
  "read_opthdr fh fl =
     (if fh_opthdr fh \<noteq> 0
      then (case readstruct OptHdr_type fl of
              Inl e \<Rightarrow> Inl e
            | Inr (oh, fl') \<Rightarrow> Inr (Some oh, fl'))
      else Inr (None, fl))"

text \<open>
  The string table: \<open>baseoff = self.f.tell()\<close>, the 4-byte length
  \<open>nstrs\<close>, then the scan. \<open>struct.unpack('I', ...)\<close> raises when fewer
  than 4 bytes were left; its one item is an integer. The result is \<open>None\<close>
  when the scan does not return.
\<close>

definition read_strings :: "pyfile \<Rightarrow> (error + ((int \<times> string) list \<times> pyfile)) option" where
  "read_strings fl =
     (let baseoff = ftell fl in
      case fread fl 4 of
        (bs, fl1) \<Rightarrow>
          (case struct_unpack [I] bs of
             Inl e \<Rightarrow> Some (Inl e)
           | Inr vs \<Rightarrow>
               (case vs ! 0 of
                  VStr b \<Rightarrow> Some (Inl TypeError)
                | VInt nstrs \<Rightarrow> map_option Inr (strings_loop fl1 baseoff nstrs []))))"

text \<open>
  \<open>Coff.__init__\<close> on an open file object: file header, optional header,
  section headers, relocations, symbols, strings, in this order; the first
  exception ends it and no object is built. Given a path, the constructor
  opens the file first; \<open>parsecoff_main\<close> below does that.
\<close>

definition Coff_init :: "pyfile \<Rightarrow> (error + Coff) option" where
  "Coff_init fl0 =
     (case readstruct FileHdr_type fl0 of
        Inl e \<Rightarrow> Some (Inl e)
      | Inr (fh, fl1) \<Rightarrow>
     (case read_opthdr fh fl1 of
        Inl e \<Rightarrow> Some (Inl e)
      | Inr (oh, fl2) \<Rightarrow>
     (case readstructs SecHdr_type (unat (fh_nscns fh)) fl2 of
        Inl e \<Rightarrow> Some (Inl e)
      | Inr (secs, fl3) \<Rightarrow>
     (case reloc_loop (relocsecs secs) fl3 Map.empty of
        Inl e \<Rightarrow> Some (Inl e)
      | Inr (rel, fl4) \<Rightarrow>
     (case fseek fl4 (uint (fh_symptr fh)) of
        Inl e \<Rightarrow> Some (Inl e)
      | Inr fl5 \<Rightarrow>
     (case readstructs SymentHdr_type (unat (fh_nsyms fh)) fl5 of
        Inl e \<Rightarrow> Some (Inl e)
      | Inr (syms, fl6) \<Rightarrow>
     (case read_strings fl6 of
        None \<Rightarrow> None
      | Some (Inl e) \<Rightarrow> Some (Inl e)
      | Some (Inr (strs, fl7)) \<Rightarrow>
          Some (Inr \<lparr>cfile = fl7, filehdr = fh, opthdr = oh, sechdr = secs,
                      reloc = rel, symbols = syms, strings = strs\<rparr>))))))))"

text \<open>\<open>Coff.sectiondata\<close>: the first section of that name.\<close>

fun sectiondata_loop :: "SecHdr list \<Rightarrow> pyfile \<Rightarrow> string \<Rightarrow> error + (string option \<times> pyfile)" where
  "sectiondata_loop [] fl sname = Inr (None, fl)"
| "sectiondata_loop (s # rest) fl sname =
     (if sh_name s = sname
      then (case fseek fl (uint (sh_scnptr s)) of
              Inl e \<Rightarrow> Inl e
            | Inr fl1 \<Rightarrow>
                (case fread fl1 (uint (sh_size s)) of
                   (bs, fl2) \<Rightarrow> Inr (Some bs, fl2)))
      else sectiondata_loop rest fl sname)"

definition sectiondata :: "Coff \<Rightarrow> string \<Rightarrow> error + (string option \<times> Coff)" where
  "sectiondata c sname =
     (case sectiondata_loop (sechdr c) (cfile c) sname of
        Inl e \<Rightarrow> Inl e
      | Inr (r, fl) \<Rightarrow> Inr (r, c\<lparr>cfile := fl\<rparr>))"

text \<open>
  \<open>Coff.symboldata\<close>. The loop over the symbols keeps in \<open>nextsymb\<close> the
  smallest value of a type-4 symbol above the symbol's own, starting from
  \<open>0xffffffff\<close>.
\<close>

fun nextsymb_loop :: "SymentHdr list \<Rightarrow> SymentHdr \<Rightarrow> int \<Rightarrow> int" where
  "nextsymb_loop [] symbol nextsymb = nextsymb"
| "nextsymb_loop (smb # rest) symbol nextsymb =
     (if sy_type smb \<noteq> 4 then nextsymb_loop rest symbol nextsymb
      else if uint (sy_value smb) > uint (sy_value symbol) \<and> uint (sy_value smb) < nextsymb
      then nextsymb_loop rest symbol (uint (sy_value smb))
      else nextsymb_loop rest symbol nextsymb)"

definition symboldata :: "Coff \<Rightarrow> SymentHdr \<Rightarrow> error + (string \<times> Coff)" where
  "symboldata c symbol =
     (case py_index (sechdr c) (uint (sy_scnum symbol) - 1) of
        Inl e \<Rightarrow> Inl e
      | Inr sec \<Rightarrow>
          (case fseek (cfile c)
                  (uint (sh_scnptr sec) + uint (sy_value symbol) - uint (sh_vaddr sec)) of
             Inl e \<Rightarrow> Inl e
           | Inr fl1 \<Rightarrow>
               (let nextsymb = nextsymb_loop (symbols c) symbol 0xffffffff in
                case fread fl1 (nextsymb - uint (sy_value symbol)) of
                  (bs, fl2) \<Rightarrow> Inr (bs, c\<lparr>cfile := fl2\<rparr>))))"

section \<open>The world of a run\<close>

text \<open>
  What a script sees and changes outside itself: the lines it printed, the
  files by path, and which paths the system lets it open for writing.
  \<open>open(path, 'w')\<close> raises \<open>TypeError\<close> for a path with a null byte and
  \<open>IOError\<close> where the system refuses; otherwise the file exists from then on,
  empty. \<open>open(path, 'r')\<close> raises \<open>IOError\<close> when there is no such file.
\<close>

record world =
  stdout :: "string list"
  files :: "string \<rightharpoonup> string"
  writable :: "string \<Rightarrow> bool"

datatype outcome = Finished | Exit nat | Uncaught error

definition print_line :: "world \<Rightarrow> string \<Rightarrow> world" where
  "print_line w ln = w\<lparr>stdout := stdout w @ [ln]\<rparr>"

definition open_w :: "world \<Rightarrow> string \<Rightarrow> error + world" where
  "open_w w path =
     (if CHR 0x00 \<in> set path then Inl TypeError
      else if \<not> writable w path then Inl IOError
      else Inr (w\<lparr>files := (files w)(path \<mapsto> [])\<rparr>))"

definition open_r :: "world \<Rightarrow> string \<Rightarrow> error + pyfile" where
  "open_r w path =
     (if CHR 0x00 \<in> set path then Inl TypeError
      else (case files w path of
              None \<Rightarrow> Inl IOError
            | Some bytes \<Rightarrow> Inr \<lparr>fdata = bytes, fpos = 0\<rparr>))"

text \<open>\<open>f.write(bs); f.close()\<close> on a file opened for writing at \<open>path\<close>.\<close>

definition write_close :: "world \<Rightarrow> string \<Rightarrow> string \<Rightarrow> world" where
  "write_close w path bs = w\<lparr>files := (files w)(path \<mapsto> bs)\<rparr>"

section \<open>The extraction driver\<close>

text \<open>
  \<open>sorted([s for s in coff.symbols if s.type == 4 and s.scnum == 2],
  key=itemgetter(1))\<close>: item 1 of a symbol is its value, and \<open>sorted\<close> is
  stable, as \<^const>\<open>sort_key\<close> is.
\<close>

definition driver_symbols :: "Coff \<Rightarrow> SymentHdr list" where
  "driver_symbols c =
     sort_key sy_value (filter (\<lambda>s. sy_type s = 4 \<and> sy_scnum s = 2) (symbols c))"

text \<open>
  The search of the string table, \<open>for off, st in coff.strings: if off ==
  s.offset: name = st\<close>. It has no \<open>break\<close>: the last match stays.
\<close>

fun lookup_loop :: "(int \<times> string) list \<Rightarrow> SymentHdr \<Rightarrow> string option \<Rightarrow> error + string option" where
  "lookup_loop [] s name = Inr name"
| "lookup_loop ((off, st) # rest) s name =
     (case sy_offset s of
        Inl e \<Rightarrow> Inl e
      | Inr key \<Rightarrow> lookup_loop rest s (if off = key then Some st else name))"

definition resolve_name :: "Coff \<Rightarrow> SymentHdr \<Rightarrow> error + string option" where
  "resolve_name c s =
     (case sy_name s of
        Inl e \<Rightarrow> Inl e
      | Inr (Some n) \<Rightarrow> Inr (Some n)
      | Inr None \<Rightarrow> lookup_loop (strings c) s None)"

text \<open>
  One turn of the driver's loop on the state \<open>(coff, idx, world)\<close>. The result
  says whether an exception ended the run, and gives the state reached.
\<close>

type_synonym driver_state = "Coff \<times> nat \<times> world"

definition driver_body :: "SymentHdr \<Rightarrow> driver_state \<Rightarrow> error option \<times> driver_state" where
  "driver_body s st =
     (case st of
        (c, idx, w) \<Rightarrow>
          (case resolve_name c s of
             Inl e \<Rightarrow> (Some e, (c, idx, w))
           | Inr nm \<Rightarrow>
               (let name = (case nm of None \<Rightarrow> ''unknown'' @ show_nat idx | Some n \<Rightarrow> n);
                    idx' = (case nm of None \<Rightarrow> idx + 1 | Some n \<Rightarrow> idx);
                    w1 = print_line w (''Doing symbol '' @ name)
                in case open_w w1 (''func/'' @ name) of
                     Inl e \<Rightarrow> (Some e, (c, idx', w1))
                   | Inr w2 \<Rightarrow>
                       (case symboldata c s of
                          Inl e \<Rightarrow> (Some e, (c, idx', w2))
                        | Inr (bs, c') \<Rightarrow>
                            (None, (c', idx', write_close w2 (''func/'' @ name) bs))))))"

fun driver_loop :: "SymentHdr list \<Rightarrow> driver_state \<Rightarrow> error option \<times> driver_state" where
  "driver_loop [] st = (None, st)"
| "driver_loop (s # rest) st =
     (case driver_body s st of
        (Some e, st') \<Rightarrow> (Some e, st')
      | (None, st') \<Rightarrow> driver_loop rest st')"

text \<open>The driver on a parsed container: \<open>idx = 1\<close>, then the loop.\<close>

definition driver :: "Coff \<Rightarrow> world \<Rightarrow> error option \<times> driver_state" where
  "driver c w = driver_loop (driver_symbols c) (c, 1, w)"

text \<open>
  The script \<open>parsecoff.py\<close> with its arguments (\<open>argv ! 0\<close> is the script's
  name). The run is \<open>None\<close> when the parser does not return.
\<close>

definition parsecoff_main :: "string list \<Rightarrow> world \<Rightarrow> (outcome \<times> world) option" where
  "parsecoff_main argv w =
     (case py_index argv 1 of
        Inl e \<Rightarrow> Some (Uncaught e, w)
      | Inr path \<Rightarrow>
          (case open_r w path of
             Inl e \<Rightarrow> Some (Uncaught e, w)
           | Inr fl \<Rightarrow>
               (case Coff_init fl of
                  None \<Rightarrow> None
                | Some (Inl e) \<Rightarrow> Some (Uncaught e, w)
                | Some (Inr c) \<Rightarrow>
                    (case driver c w of
                       (Some e, (c', idx, w')) \<Rightarrow> Some (Uncaught e, w')
                     | (None, (c', idx, w')) \<Rightarrow> Some (Finished, w')))))"

section \<open>The module extractor\<close>

text \<open>\<open>sep.join(xs)\<close>, and a list comprehension whose element may raise.\<close>

fun join :: "string \<Rightarrow> string list \<Rightarrow> string" where
  "join sep [] = []"
| "join sep [x] = x"
| "join sep (x # y # ys) = x @ sep @ join sep (y # ys)"

fun map_raise :: "('a \<Rightarrow> error + 'b) \<Rightarrow> 'a list \<Rightarrow> error + 'b list" where
  "map_raise g [] = Inr []"
| "map_raise g (x # xs) =
     (case g x of
        Inl e \<Rightarrow> Inl e
      | Inr y \<Rightarrow> (case map_raise g xs of Inl e \<Rightarrow> Inl e | Inr ys \<Rightarrow> Inr (y # ys)))"

text \<open>\<open>'%i' % (ord(header[i]))\<close>.\<close>

definition version_part :: "string \<Rightarrow> int \<Rightarrow> error + string" where
  "version_part header i =
     (case py_index header i of
        Inl e \<Rightarrow> Inl e
      | Inr ch \<Rightarrow> Inr (show_nat (of_char ch)))"

text \<open>
  The script \<open>extractcoff.py\<close>: read 128 bytes, leave with \<open>sys.exit(1)\<close>
  unless they start with \<open>MTCH\<close>, print name, version and description, then
  open the output and write the rest of the input to it.
\<close>

definition extractcoff_main :: "string list \<Rightarrow> world \<Rightarrow> outcome \<times> world" where
  "extractcoff_main argv w =
     (case py_index argv 1 of
        Inl e \<Rightarrow> (Uncaught e, w)
      | Inr inpath \<Rightarrow>
     (case open_r w inpath of
        Inl e \<Rightarrow> (Uncaught e, w)
      | Inr fl \<Rightarrow>
     (case fread fl 128 of
        (header, fl1) \<Rightarrow>
          if take 4 header \<noteq> ''MTCH''
          then (Exit 1, print_line w ''Invalid MTC file!'')
          else
            (let w1 = print_line w (''Module name: '' @ strip_nul (take 15 (drop 44 header)))
             in case map_raise (version_part header) [60, 61, 62, 63] of
                  Inl e \<Rightarrow> (Uncaught e, w1)
                | Inr parts \<Rightarrow>
                    (let w2 = print_line w1 (''Module version: '' @ join ''.'' parts);
                         w3 = print_line w2
                                (''Module description: '' @ strip_nul (take 32 (drop 64 header)))
                     in case py_index argv 2 of
                          Inl e \<Rightarrow> (Uncaught e, w3)
                        | Inr outpath \<Rightarrow>
                            (case open_w w3 outpath of
                               Inl e \<Rightarrow> (Uncaught e, w3)
                             | Inr w4 \<Rightarrow>
                                 (case fread fl1 (- 1) of
                                    (rest, fl2) \<Rightarrow>
                                      (Finished, write_close w4 outpath rest))))))))"

section \<open>Example inputs\<close>

text \<open>The string table of length 10 holding \<open>foo\<close> and \<open>bar\<close>.\<close>

definition strtab_example :: string where
  "strtab_example =
     [CHR 0x0A, CHR 0x00, CHR 0x00, CHR 0x00] @
     ''foo'' @ [CHR 0x00] @ ''bar'' @ [CHR 0x00, CHR 0x00, CHR 0x00]"

text \<open>
  A container of 248 bytes: a file header without optional header, two
  sections that are both named \<open>.text\<close> and both have one relocation
  entry, five symbols, a string table holding \<open>foo\<close> at offset 4, and 8
  bytes of section data, \<open>ABCDEFGH\<close>, at offset 240. The first section
  claims 256 bytes of data from offset 244; the second has the 8 bytes from
  offset 240 and lies at address \<open>0x1000\<close>.
\<close>

definition example_bytes :: string where
  "example_bytes =
     \<comment> \<open>file header\<close>
     [CHR 0x08, CHR 0x01, CHR 0x02, CHR 0x00, CHR 0x00, CHR 0x00,
      CHR 0x00, CHR 0x00, CHR 0x8E, CHR 0x00, CHR 0x00, CHR 0x00,
      CHR 0x05, CHR 0x00, CHR 0x00, CHR 0x00, CHR 0x00, CHR 0x00,
      CHR 0x00, CHR 0x00, CHR 0x00, CHR 0x00] @
     \<comment> \<open>section header 1\<close>
     [CHR 0x2E, CHR 0x74, CHR 0x65, CHR 0x78, CHR 0x74, CHR 0x00,
      CHR 0x00, CHR 0x00, CHR 0x00, CHR 0x00, CHR 0x00, CHR 0x00,
      CHR 0x00, CHR 0x00, CHR 0x00, CHR 0x00, CHR 0x00, CHR 0x01,
      CHR 0x00, CHR 0x00, CHR 0xF4, CHR 0x00, CHR 0x00, CHR 0x00,
      CHR 0x76, CHR 0x00, CHR 0x00, CHR 0x00, CHR 0x00, CHR 0x00,
      CHR 0x00, CHR 0x00, CHR 0x01, CHR 0x00, CHR 0x00, CHR 0x00,
      CHR 0x00, CHR 0x00, CHR 0x00, CHR 0x00, CHR 0x20, CHR 0x00,
      CHR 0x00, CHR 0x00, CHR 0x00, CHR 0x00, CHR 0x00, CHR 0x00] @
     \<comment> \<open>section header 2\<close>
     [CHR 0x2E, CHR 0x74, CHR 0x65, CHR 0x78, CHR 0x74, CHR 0x00,
      CHR 0x00, CHR 0x00, CHR 0x00, CHR 0x10, CHR 0x00, CHR 0x00,
      CHR 0x00, CHR 0x10, CHR 0x00, CHR 0x00, CHR 0x08, CHR 0x00,
      CHR 0x00, CHR 0x00, CHR 0xF0, CHR 0x00, CHR 0x00, CHR 0x00,
      CHR 0x82, CHR 0x00, CHR 0x00, CHR 0x00, CHR 0x00, CHR 0x00,
      CHR 0x00, CHR 0x00, CHR 0x01, CHR 0x00, CHR 0x00, CHR 0x00,
      CHR 0x00, CHR 0x00, CHR 0x00, CHR 0x00, CHR 0x20, CHR 0x00,
      CHR 0x00, CHR 0x00, CHR 0x00, CHR 0x00, CHR 0x00, CHR 0x00] @
     \<comment> \<open>relocation of section 1\<close>
     [CHR 0x10, CHR 0x00, CHR 0x00, CHR 0x00, CHR 0x01, CHR 0x00,
      CHR 0x00, CHR 0x00, CHR 0x00, CHR 0x00, CHR 0x01, CHR 0x00] @
     \<comment> \<open>relocation of section 2\<close>
     [CHR 0x04, CHR 0x10, CHR 0x00, CHR 0x00, CHR 0x02, CHR 0x00,
      CHR 0x00, CHR 0x00, CHR 0x00, CHR 0x00, CHR 0x02, CHR 0x00] @
     \<comment> \<open>symbol main\<close>
     [CHR 0x6D, CHR 0x61, CHR 0x69, CHR 0x6E, CHR 0x00, CHR 0x00,
      CHR 0x00, CHR 0x00, CHR 0x04, CHR 0x10, CHR 0x00, CHR 0x00,
      CHR 0x02, CHR 0x00, CHR 0x04, CHR 0x00, CHR 0x02, CHR 0x00] @
     \<comment> \<open>symbol at string offset 4\<close>
     [CHR 0x00, CHR 0x00, CHR 0x00, CHR 0x00, CHR 0x04, CHR 0x00,
      CHR 0x00, CHR 0x00, CHR 0x00, CHR 0x10, CHR 0x00, CHR 0x00,
      CHR 0x02, CHR 0x00, CHR 0x04, CHR 0x00, CHR 0x02, CHR 0x00] @
     \<comment> \<open>symbol at string offset 99\<close>
     [CHR 0x00, CHR 0x00, CHR 0x00, CHR 0x00, CHR 0x63, CHR 0x00,
      CHR 0x00, CHR 0x00, CHR 0x02, CHR 0x10, CHR 0x00, CHR 0x00,
      CHR 0x02, CHR 0x00, CHR 0x04, CHR 0x00, CHR 0x02, CHR 0x00] @
     \<comment> \<open>symbol ext, undefined\<close>
     [CHR 0x65, CHR 0x78, CHR 0x74, CHR 0x00, CHR 0x00, CHR 0x00,
      CHR 0x00, CHR 0x00, CHR 0x06, CHR 0x10, CHR 0x00, CHR 0x00,
      CHR 0x00, CHR 0x00, CHR 0x00, CHR 0x00, CHR 0x02, CHR 0x00] @
     \<comment> \<open>symbol at string offset 77\<close>
     [CHR 0x00, CHR 0x00, CHR 0x00, CHR 0x00, CHR 0x4D, CHR 0x00,
      CHR 0x00, CHR 0x00, CHR 0x06, CHR 0x10, CHR 0x00, CHR 0x00,
      CHR 0x02, CHR 0x00, CHR 0x04, CHR 0x00, CHR 0x02, CHR 0x00] @
     \<comment> \<open>string table\<close>
     [CHR 0x08, CHR 0x00, CHR 0x00, CHR 0x00, CHR 0x66, CHR 0x6F,
      CHR 0x6F, CHR 0x00] @
     \<comment> \<open>section data\<close>
     [CHR 0x41, CHR 0x42, CHR 0x43, CHR 0x44, CHR 0x45, CHR 0x46,
      CHR 0x47, CHR 0x48]"

definition example_sec1 :: SecHdr where
  "example_sec1 =
     \<lparr>sh_orig_name = ''.text'' @ [CHR 0x00, CHR 0x00, CHR 0x00],
      sh_paddr = 0, sh_vaddr = 0, sh_size = 0x100, sh_scnptr = 244, sh_relptr = 118,
      sh_lnnoptr = 0, sh_nreloc = 1, sh_nlnno = 0, sh_flags = 0x20, sh_reserved = 0,
      sh_page = 0\<rparr>"

definition example_sec2 :: SecHdr where
  "example_sec2 =
     \<lparr>sh_orig_name = ''.text'' @ [CHR 0x00, CHR 0x00, CHR 0x00],
      sh_paddr = 0x1000, sh_vaddr = 0x1000, sh_size = 8, sh_scnptr = 240, sh_relptr = 130,
      sh_lnnoptr = 0, sh_nreloc = 1, sh_nlnno = 0, sh_flags = 0x20, sh_reserved = 0,
      sh_page = 0\<rparr>"

definition example_rel1 :: RelocHdr where
  "example_rel1 = \<lparr>rh_vaddr = 0x10, rh_symndx = 1, rh_reserved = 0, rh_type = 1\<rparr>"

definition example_rel2 :: RelocHdr where
  "example_rel2 = \<lparr>rh_vaddr = 0x1004, rh_symndx = 2, rh_reserved = 0, rh_type = 2\<rparr>"

text \<open>
  The five symbols: \<open>main\<close>, named inline; one named \<open>foo\<close> through
  offset 4 of the string table; two whose offsets, 99 and 77, are not in the
  string table; and \<open>ext\<close>, undefined (section number 0, not a function).
\<close>

definition sym_main :: SymentHdr where
  "sym_main =
     \<lparr>sy_orig_name = ''main'' @ [CHR 0x00, CHR 0x00, CHR 0x00, CHR 0x00],
      sy_value = 0x1004, sy_scnum = 2, sy_type = 4, sy_sclass = 2, sy_numaux = 0\<rparr>"

definition sym_foo :: SymentHdr where
  "sym_foo =
     \<lparr>sy_orig_name = [CHR 0x00, CHR 0x00, CHR 0x00, CHR 0x00,
                      CHR 0x04, CHR 0x00, CHR 0x00, CHR 0x00],
      sy_value = 0x1000, sy_scnum = 2, sy_type = 4, sy_sclass = 2, sy_numaux = 0\<rparr>"

definition sym_anon1 :: SymentHdr where
  "sym_anon1 =
     \<lparr>sy_orig_name = [CHR 0x00, CHR 0x00, CHR 0x00, CHR 0x00,
                      CHR 0x63, CHR 0x00, CHR 0x00, CHR 0x00],
      sy_value = 0x1002, sy_scnum = 2, sy_type = 4, sy_sclass = 2, sy_numaux = 0\<rparr>"

definition sym_ext :: SymentHdr where
  "sym_ext =
     \<lparr>sy_orig_name = ''ext'' @ [CHR 0x00, CHR 0x00, CHR 0x00, CHR 0x00, CHR 0x00],
      sy_value = 0x1006, sy_scnum = 0, sy_type = 0, sy_sclass = 2, sy_numaux = 0\<rparr>"

definition sym_anon2 :: SymentHdr where
  "sym_anon2 =
     \<lparr>sy_orig_name = [CHR 0x00, CHR 0x00, CHR 0x00, CHR 0x00,
                      CHR 0x4D, CHR 0x00, CHR 0x00, CHR 0x00],
      sy_value = 0x1006, sy_scnum = 2, sy_type = 4, sy_sclass = 2, sy_numaux = 0\<rparr>"

text \<open>What the parser makes of it, with the file left at offset 240.\<close>

definition example_coff :: Coff where
  "example_coff =
     \<lparr>cfile = \<lparr>fdata = example_bytes, fpos = 240\<rparr>,
      filehdr = \<lparr>fh_magic = 0x108, fh_nscns = 2, fh_timdat = 0, fh_symptr = 142,
                  fh_nsyms = 5, fh_opthdr = 0, fh_flags = 0, fh_target_id = 0\<rparr>,
      opthdr = None,
      sechdr = [example_sec1, example_sec2],
      reloc = [''.text'' \<mapsto> [example_rel2]],
      symbols = [sym_main, sym_foo, sym_anon1, sym_ext, sym_anon2],
      strings = [(4, ''foo'')]\<rparr>"

text \<open>
  A world for the examples: nothing printed yet, one file \<open>fw.mtc\<close> that
  starts with the bytes of an ELF file, and every path open to writing.
\<close>

definition example_world :: world where
  "example_world =
     \<lparr>stdout = [], files = [''fw.mtc'' \<mapsto> [CHR 0x7F] @ ''ELF'' @ ''payload''],
      writable = (\<lambda>path. True)\<rparr>"

text \<open>The same world, except that \<open>func/main\<close> is not open to writing.\<close>

definition example_world_ro :: world where
  "example_world_ro =
     \<lparr>stdout = [], files = [''fw.mtc'' \<mapsto> [CHR 0x7F] @ ''ELF'' @ ''payload''],
      writable = (\<lambda>path. path \<noteq> ''func/main'')\<rparr>"

section \<open>The names the driver is to assign\<close>

text \<open>
  For stating what the driver prints. A symbol is unresolved when neither its
  inline name nor the string table gives it a name. The name of the \<open>j\<close>-th
  symbol of a list is its resolved name, or \<open>unknown\<close> followed by a
  number: \<open>start\<close> plus the number of unresolved symbols before it in the
  list.
\<close>

definition unresolved :: "Coff \<Rightarrow> SymentHdr \<Rightarrow> bool" where
  "unresolved c s = (resolve_name c s = Inr None)"

definition assigned_name :: "Coff \<Rightarrow> nat \<Rightarrow> SymentHdr list \<Rightarrow> nat \<Rightarrow> string" where
  "assigned_name c start syms j =
     (case resolve_name c (syms ! j) of
        Inr (Some n) \<Rightarrow> n
      | _ \<Rightarrow> ''unknown'' @ show_nat (start + length (filter (unresolved c) (take j syms))))"

text \<open>
  For stating what one turn of the driver's loop does with the \<open>j\<close>-th
  symbol of a list, from the container and the world the run started with:
  whether its name resolves without an exception; the path it writes to; the
  bytes \<open>symboldata\<close> gives for it; whether the turn gets its file open;
  and the exception that ends the turn, if any: the one of the name
  resolution, else \<open>TypeError\<close> for a null byte in the path, else
  \<open>IOError\<close> for a path that is not open to writing, else the one of
  \<open>symboldata\<close>.
\<close>

definition resolves :: "Coff \<Rightarrow> SymentHdr \<Rightarrow> bool" where
  "resolves c s = (case resolve_name c s of Inl e \<Rightarrow> False | Inr nm \<Rightarrow> True)"

definition turn_path :: "Coff \<Rightarrow> nat \<Rightarrow> SymentHdr list \<Rightarrow> nat \<Rightarrow> string" where
  "turn_path c start syms j = ''func/'' @ assigned_name c start syms j"

definition turn_bytes :: "Coff \<Rightarrow> SymentHdr \<Rightarrow> string" where
  "turn_bytes c s = (case symboldata c s of Inl e \<Rightarrow> [] | Inr (bs, c') \<Rightarrow> bs)"

definition turn_opens :: "Coff \<Rightarrow> world \<Rightarrow> nat \<Rightarrow> SymentHdr list \<Rightarrow> nat \<Rightarrow> bool" where
  "turn_opens c w start syms j =
     (resolves c (syms ! j) \<and> CHR 0x00 \<notin> set (turn_path c start syms j) \<and>
      writable w (turn_path c start syms j))"

definition turn_failure :: "Coff \<Rightarrow> world \<Rightarrow> nat \<Rightarrow> SymentHdr list \<Rightarrow> nat \<Rightarrow> error option" where
  "turn_failure c w start syms j =
     (case resolve_name c (syms ! j) of
        Inl e \<Rightarrow> Some e
      | Inr nm \<Rightarrow>
          if CHR 0x00 \<in> set (turn_path c start syms j) then Some TypeError
          else if \<not> writable w (turn_path c start syms j) then Some IOError
          else (case symboldata c (syms ! j) of Inl e \<Rightarrow> Some e | Inr r \<Rightarrow> None))"

section \<open>Records in the bytes\<close>

text \<open>
  For stating what the parser decodes: the record of a kind that the bytes at
  an offset make, when there are enough of them, and \<open>n\<close> consecutive
  records from an offset.
\<close>

definition record_at :: "'a structtype \<Rightarrow> string \<Rightarrow> nat \<Rightarrow> 'a option" where
  "record_at T bytes off =
     (if structlen T \<le> length bytes - off
      then construct T (unpack_fields (structfmt T) (take (structlen T) (drop off bytes)))
      else None)"

definition records_at :: "'a structtype \<Rightarrow> string \<Rightarrow> nat \<Rightarrow> nat \<Rightarrow> 'a option list" where
  "records_at T bytes off n = map (\<lambda>i. record_at T bytes (off + i * structlen T)) [0..<n]"

section \<open>Reading records\<close>

lemma fread_nat:
  "fread fl (int n) =
     (take n (drop (fpos fl) (fdata fl)),
      fl\<lparr>fpos := fpos fl + min n (length (fdata fl) - fpos fl)\<rparr>)"
  by (simp add: fread_def Let_def min_def)

lemma readstruct_EOFError_iff:
  "readstruct T fl = Inl EOFError \<longleftrightarrow> length (fdata fl) - fpos fl < structlen T"
  by (auto simp: readstruct_def fread_nat struct_unpack_def structlen_def
      split: option.splits)

lemma readstruct_Inr_iff:
  "readstruct T fl = Inr (x, fl') \<longleftrightarrow>
     record_at T (fdata fl) (fpos fl) = Some x \<and> fl' = fl\<lparr>fpos := fpos fl + structlen T\<rparr>"
  by (auto simp: readstruct_def fread_nat struct_unpack_def structlen_def record_at_def min_def
      split: option.splits)

lemma records_at_Suc:
  "records_at T bytes off (Suc n) =
     record_at T bytes off # records_at T bytes (off + structlen T) n"
proof -
  have "[0..<Suc n] = 0 # map Suc [0..<n]"
    by (simp add: upt_conv_Cons map_Suc_upt del: upt_Suc)
  then show ?thesis
    by (simp add: records_at_def comp_def add.assoc del: upt_Suc)
qed

lemma readstructs_Inr_iff:
  "readstructs T n fl = Inr (xs, fl') \<longleftrightarrow>
     map Some xs = records_at T (fdata fl) (fpos fl) n \<and>
     fl' = fl\<lparr>fpos := fpos fl + n * structlen T\<rparr>"
proof (induction n arbitrary: fl xs fl')
  case 0
  show ?case by (auto simp: records_at_def)
next
  case (Suc n)
  show ?case
  proof (cases "readstruct T fl")
    case (Inl e)
    then have "record_at T (fdata fl) (fpos fl) = None"
      using readstruct_Inr_iff [of T fl] by (cases "record_at T (fdata fl) (fpos fl)") auto
    with Inl show ?thesis by (auto simp: records_at_Suc)
  next
    case (Inr p)
    obtain x fl1 where p: "p = (x, fl1)" by (cases p)
    from Inr p have r: "record_at T (fdata fl) (fpos fl) = Some x"
      and fl1: "fl1 = fl\<lparr>fpos := fpos fl + structlen T\<rparr>"
      by (simp_all add: readstruct_Inr_iff)
    show ?thesis
    proof (cases "readstructs T n fl1")
      case (Inl e)
      have "map Some ys \<noteq> records_at T (fdata fl1) (fpos fl1) n" for ys
        using Inl Suc.IH [of fl1 ys "fl1\<lparr>fpos := fpos fl1 + n * structlen T\<rparr>"] by auto
      with \<open>readstruct T fl = Inr p\<close> p Inl r fl1 show ?thesis
        by (auto simp: records_at_Suc map_eq_Cons_conv)
    next
      case (Inr q)
      obtain ys fl2 where q: "q = (ys, fl2)" by (cases q)
      from Inr q Suc.IH [of fl1 ys fl2]
      have ys: "map Some ys = records_at T (fdata fl1) (fpos fl1) n"
        and fl2: "fl2 = fl1\<lparr>fpos := fpos fl1 + n * structlen T\<rparr>" by simp_all
      have inj: "zs = ys" if "map Some zs = records_at T (fdata fl) (fpos fl + structlen T) n" for zs
      proof -
        from that ys fl1 have "map Some zs = map Some ys" by simp
        then show ?thesis by (simp add: inj_map_eq_map)
      qed
      from \<open>readstruct T fl = Inr p\<close> p Inr q r fl1 ys fl2 show ?thesis
        by (auto simp: records_at_Suc map_eq_Cons_conv add.assoc dest: inj)
    qed
  qed
qed

lemma structlen_values:
  "structlen FileHdr_type = 22" "structlen OptHdr_type = 28" "structlen SecHdr_type = 48"
  "structlen RelocHdr_type = 12" "structlen SymentHdr_type = 18"
  by (simp_all add: structlen_def calcsize_def FileHdr_type_def OptHdr_type_def
      SecHdr_type_def RelocHdr_type_def SymentHdr_type_def)

lemma construct_total:
  "construct FileHdr_type (unpack_fields (structfmt FileHdr_type) bs) \<noteq> None"
  "construct OptHdr_type (unpack_fields (structfmt OptHdr_type) bs) \<noteq> None"
  "construct SecHdr_type (unpack_fields (structfmt SecHdr_type) bs) \<noteq> None"
  "construct RelocHdr_type (unpack_fields (structfmt RelocHdr_type) bs) \<noteq> None"
  "construct SymentHdr_type (unpack_fields (structfmt SymentHdr_type) bs) \<noteq> None"
  by (simp_all add: FileHdr_type_def OptHdr_type_def SecHdr_type_def RelocHdr_type_def
      SymentHdr_type_def new_FileHdr_def new_OptHdr_def new_SecHdr_def new_RelocHdr_def
      new_SymentHdr_def)

lemma record_at_None_iff:
  assumes "\<And>bs. construct T (unpack_fields (structfmt T) bs) \<noteq> None"
  shows "record_at T bytes off = None \<longleftrightarrow> length bytes - off < structlen T"
  using assms by (auto simp: record_at_def)

lemma readstruct_Inl:
  assumes "\<And>bs. construct T (unpack_fields (structfmt T) bs) \<noteq> None"
    and "readstruct T fl = Inl e"
  shows "e = EOFError \<and> length (fdata fl) - fpos fl < structlen T"
proof -
  let ?hdr = "take (structlen T) (drop (fpos fl) (fdata fl))"
  from assms(1) [of ?hdr] obtain x where "construct T (unpack_fields (structfmt T) ?hdr) = Some x"
    by blast
  with assms(2) show ?thesis
    by (auto simp: readstruct_def fread_nat struct_unpack_def structlen_def
        split: if_splits)
qed

lemma fseek_uint: "fseek fl (uint w) = Inr (fl\<lparr>fpos := unat w\<rparr>)"
  by (simp add: fseek_def)

lemma reloc_loop_fdata:
  "reloc_loop rss fl m = Inr (m', fl') \<Longrightarrow> fdata fl' = fdata fl"
proof (induction rss fl m rule: reloc_loop.induct)
  case (1 fl m)
  then show ?case by simp
next
  case (2 nm relptr nreloc rest fl m)
  from "2.prems" obtain rl fl2 where
    rd: "readstructs RelocHdr_type (unat nreloc) (fl\<lparr>fpos := unat relptr\<rparr>) = Inr (rl, fl2)"
    and rest: "reloc_loop rest fl2 (m(nm \<mapsto> rl)) = Inr (m', fl')"
    by (auto simp: fseek_uint split: sum.splits)
  from rd have "fdata fl2 = fdata fl" by (simp add: readstructs_Inr_iff)
  moreover from "2.IH" [OF fseek_uint rd refl rest] have "fdata fl' = fdata fl2" .
  ultimately show ?case by simp
qed

lemma reloc_loop_other:
  "reloc_loop rss fl m = Inr (m', fl') \<Longrightarrow> filter (\<lambda>rs. fst rs = nm) rss = [] \<Longrightarrow>
     m' nm = m nm"
proof (induction rss fl m rule: reloc_loop.induct)
  case (1 fl m)
  then show ?case by simp
next
  case (2 n relptr nreloc rest fl m)
  from "2.prems" obtain rl fl2 where
    rd: "readstructs RelocHdr_type (unat nreloc) (fl\<lparr>fpos := unat relptr\<rparr>) = Inr (rl, fl2)"
    and rest: "reloc_loop rest fl2 (m(n \<mapsto> rl)) = Inr (m', fl')"
    by (auto simp: fseek_uint split: sum.splits)
  from "2.prems" have ne: "n \<noteq> nm" and f: "filter (\<lambda>rs. fst rs = nm) rest = []"
    by (auto split: if_splits)
  from "2.IH" [OF fseek_uint rd refl rest f] have "m' nm = (m(n \<mapsto> rl)) nm" .
  with ne show ?case by simp
qed

lemma reloc_loop_last:
  "reloc_loop rss fl m = Inr (m', fl') \<Longrightarrow> filter (\<lambda>rs. fst rs = nm) rss \<noteq> [] \<Longrightarrow>
   last (filter (\<lambda>rs. fst rs = nm) rss) = (nm', relptr', nreloc') \<Longrightarrow>
     \<exists>es. m' nm = Some es \<and>
          map Some es = records_at RelocHdr_type (fdata fl) (unat relptr') (unat nreloc')"
proof (induction rss fl m rule: reloc_loop.induct)
  case (1 fl m)
  then show ?case by simp
next
  case (2 n relptr nreloc rest fl m)
  from "2.prems" obtain rl fl2 where
    rd: "readstructs RelocHdr_type (unat nreloc) (fl\<lparr>fpos := unat relptr\<rparr>) = Inr (rl, fl2)"
    and rest: "reloc_loop rest fl2 (m(n \<mapsto> rl)) = Inr (m', fl')"
    by (auto simp: fseek_uint split: sum.splits)
  from rd have d2: "fdata fl2 = fdata fl"
    and rl: "map Some rl = records_at RelocHdr_type (fdata fl) (unat relptr) (unat nreloc)"
    by (simp_all add: readstructs_Inr_iff)
  show ?case
  proof (cases "filter (\<lambda>rs. fst rs = nm) rest = []")
    case True
    with "2.prems" have "n = nm" and "relptr' = relptr" and "nreloc' = nreloc"
      by (auto split: if_splits)
    moreover from reloc_loop_other [OF rest True] have "m' nm = (m(n \<mapsto> rl)) nm" .
    ultimately show ?thesis using rl by simp
  next
    case False
    with "2.prems" have "last (filter (\<lambda>rs. fst rs = nm) rest) = (nm', relptr', nreloc')"
      by (auto split: if_splits)
    from "2.IH" [OF fseek_uint rd refl rest False this] d2 show ?thesis
      by simp
  qed
qed

lemma Coff_init_stages:
  assumes "Coff_init fl = Some (Inr c)"
  obtains fl1 fl2 fl3 fl4 fl6 where
    "readstruct FileHdr_type fl = Inr (filehdr c, fl1)"
    "read_opthdr (filehdr c) fl1 = Inr (opthdr c, fl2)"
    "readstructs SecHdr_type (unat (fh_nscns (filehdr c))) fl2 = Inr (sechdr c, fl3)"
    "reloc_loop (relocsecs (sechdr c)) fl3 Map.empty = Inr (reloc c, fl4)"
    "readstructs SymentHdr_type (unat (fh_nsyms (filehdr c)))
       (fl4\<lparr>fpos := unat (fh_symptr (filehdr c))\<rparr>) = Inr (symbols c, fl6)"
    "read_strings fl6 = Some (Inr (strings c, cfile c))"
  using assms
  by (auto simp: Coff_init_def fseek_uint split: sum.splits option.splits)

lemma read_opthdr_Inr:
  assumes "read_opthdr fh fl = Inr (oh, fl')"
  shows "fdata fl' = fdata fl"
    and "fpos fl' = fpos fl + (if fh_opthdr fh \<noteq> 0 then 28 else 0)"
    and "oh = (if fh_opthdr fh \<noteq> 0 then record_at OptHdr_type (fdata fl) (fpos fl) else None)"
    and "fh_opthdr fh \<noteq> 0 \<Longrightarrow> 28 \<le> length (fdata fl) - fpos fl"
  using assms
  by (auto simp: read_opthdr_def readstruct_Inr_iff structlen_values record_at_def
      split: if_splits sum.splits)

lemma Coff_init_layout:
  assumes "Coff_init fl = Some (Inr c)"
  shows "record_at FileHdr_type (fdata fl) (fpos fl) = Some (filehdr c)"
    and "opthdr c = (if fh_opthdr (filehdr c) \<noteq> 0
                     then record_at OptHdr_type (fdata fl) (fpos fl + 22) else None)"
    and "map Some (sechdr c) =
           records_at SecHdr_type (fdata fl)
             (fpos fl + 22 + (if fh_opthdr (filehdr c) \<noteq> 0 then 28 else 0))
             (unat (fh_nscns (filehdr c)))"
    and "map Some (symbols c) =
           records_at SymentHdr_type (fdata fl) (unat (fh_symptr (filehdr c)))
             (unat (fh_nsyms (filehdr c)))"
    and "\<exists>fl3 fl4. fdata fl3 = fdata fl \<and>
           reloc_loop (relocsecs (sechdr c)) fl3 Map.empty = Inr (reloc c, fl4)"
proof -
  from assms obtain fl1 fl2 fl3 fl4 fl6 where
    s1: "readstruct FileHdr_type fl = Inr (filehdr c, fl1)" and
    s2: "read_opthdr (filehdr c) fl1 = Inr (opthdr c, fl2)" and
    s3: "readstructs SecHdr_type (unat (fh_nscns (filehdr c))) fl2 = Inr (sechdr c, fl3)" and
    s4: "reloc_loop (relocsecs (sechdr c)) fl3 Map.empty = Inr (reloc c, fl4)" and
    s5: "readstructs SymentHdr_type (unat (fh_nsyms (filehdr c)))
           (fl4\<lparr>fpos := unat (fh_symptr (filehdr c))\<rparr>) = Inr (symbols c, fl6)"
    by (rule Coff_init_stages)
  from s1 have fl1: "fdata fl1 = fdata fl" "fpos fl1 = fpos fl + 22"
    and fh: "record_at FileHdr_type (fdata fl) (fpos fl) = Some (filehdr c)"
    by (simp_all add: readstruct_Inr_iff structlen_values)
  note o = read_opthdr_Inr [OF s2]
  from s3 have fl3: "fdata fl3 = fdata fl2"
    and secs: "map Some (sechdr c) =
       records_at SecHdr_type (fdata fl2) (fpos fl2) (unat (fh_nscns (filehdr c)))"
    by (simp_all add: readstructs_Inr_iff)
  from s4 have fl4: "fdata fl4 = fdata fl3" by (rule reloc_loop_fdata)
  from s5 have syms: "map Some (symbols c) =
       records_at SymentHdr_type (fdata fl4) (unat (fh_symptr (filehdr c)))
         (unat (fh_nsyms (filehdr c)))"
    by (simp add: readstructs_Inr_iff)
  show "record_at FileHdr_type (fdata fl) (fpos fl) = Some (filehdr c)" by (rule fh)
  show "opthdr c = (if fh_opthdr (filehdr c) \<noteq> 0
                     then record_at OptHdr_type (fdata fl) (fpos fl + 22) else None)"
    using o(3) fl1 by simp
  show "map Some (sechdr c) =
           records_at SecHdr_type (fdata fl)
             (fpos fl + 22 + (if fh_opthdr (filehdr c) \<noteq> 0 then 28 else 0))
             (unat (fh_nscns (filehdr c)))"
    using secs o(1,2) fl1 by simp
  show "map Some (symbols c) =
           records_at SymentHdr_type (fdata fl) (unat (fh_symptr (filehdr c)))
             (unat (fh_nsyms (filehdr c)))"
    using syms fl4 fl3 o(1) fl1 by simp
  show "\<exists>fl3 fl4. fdata fl3 = fdata fl \<and>
           reloc_loop (relocsecs (sechdr c)) fl3 Map.empty = Inr (reloc c, fl4)"
    using s4 fl3 o(1) fl1 by auto
qed

lemma records_at_length: "length (records_at T bytes off n) = n"
  by (simp add: records_at_def)

lemma records_at_nth:
  "i < n \<Longrightarrow> records_at T bytes off n ! i = record_at T bytes (off + i * structlen T)"
  by (simp add: records_at_def)

section \<open>The example container\<close>

lemmas example_defs = example_sec1_def example_sec2_def example_rel1_def example_rel2_def
  sym_main_def sym_foo_def sym_anon1_def sym_ext_def sym_anon2_def

lemma readstructs_numeral:
  "readstructs T (numeral k) fl =
     (case readstruct T fl of
        Inl e \<Rightarrow> Inl e
      | Inr (x, fl1) \<Rightarrow>
          (case readstructs T (pred_numeral k) fl1 of
             Inl e \<Rightarrow> Inl e
           | Inr (xs, fl2) \<Rightarrow> Inr (x # xs, fl2)))"
  by (simp add: numeral_eq_Suc)

lemmas parse_defs = Coff_init_def readstruct_def read_opthdr_def fread_def fseek_def ftell_def
  structlen_def calcsize_def struct_unpack_def
  FileHdr_type_def OptHdr_type_def SecHdr_type_def RelocHdr_type_def SymentHdr_type_def
  new_FileHdr_def new_OptHdr_def new_SecHdr_def new_RelocHdr_def new_SymentHdr_def
  relocsecs_def sh_name_def rstrip_nul_def read_strings_def strings_loop.simps
  inner_loop.simps readstructs_numeral

lemma example_parse:
  "Coff_init \<lparr>fdata = example_bytes, fpos = 0\<rparr> = Some (Inr example_coff)"
  by (simp add: parse_defs example_coff_def example_bytes_def example_defs)

lemma example_coff_simps:
  "cfile example_coff = \<lparr>fdata = example_bytes, fpos = 240\<rparr>"
  "sechdr example_coff = [example_sec1, example_sec2]"
  "symbols example_coff = [sym_main, sym_foo, sym_anon1, sym_ext, sym_anon2]"
  "strings example_coff = [(4, ''foo'')]"
  "reloc example_coff = [''.text'' \<mapsto> [example_rel2]]"
  "fh_nscns (filehdr example_coff) = 2"
  "fh_nsyms (filehdr example_coff) = 5"
  "fh_symptr (filehdr example_coff) = 142"
  "fh_opthdr (filehdr example_coff) = 0"
  by (simp_all add: example_coff_def)

section \<open>The accessors\<close>

lemma Min_insert_insert:
  assumes "finite A"
  shows "Min (insert n (insert v A)) = Min (insert (min n v) A)"
proof (cases "A = {}")
  case True
  then show ?thesis by (simp add: min.commute)
next
  case False
  with assms show ?thesis by (simp add: min.assoc)
qed

lemma nextsymb_loop_Min:
  "nextsymb_loop syms symbol n =
     Min (insert n ((\<lambda>t. uint (sy_value t)) `
                     {t \<in> set syms. sy_type t = 4 \<and> sy_value symbol < sy_value t}))"
proof (induction syms arbitrary: n)
  case Nil
  show ?case by simp
next
  case (Cons smb rest)
  let ?A = "(\<lambda>t. uint (sy_value t)) `
              {t \<in> set rest. sy_type t = 4 \<and> sy_value symbol < sy_value t}"
  have fin: "finite ?A" by simp
  show ?case
  proof (cases "sy_type smb = 4 \<and> sy_value symbol < sy_value smb")
    case False
    then have "{t \<in> set (smb # rest). sy_type t = 4 \<and> sy_value symbol < sy_value t} =
        {t \<in> set rest. sy_type t = 4 \<and> sy_value symbol < sy_value t}" by auto
    with False Cons.IH show ?thesis by (auto simp: word_less_def)
  next
    case True
    then have "{t \<in> set (smb # rest). sy_type t = 4 \<and> sy_value symbol < sy_value t} =
        insert smb {t \<in> set rest. sy_type t = 4 \<and> sy_value symbol < sy_value t}" by auto
    then have "Min (insert n ((\<lambda>t. uint (sy_value t)) `
          {t \<in> set (smb # rest). sy_type t = 4 \<and> sy_value symbol < sy_value t})) =
        Min (insert (min n (uint (sy_value smb))) ?A)"
      using Min_insert_insert [OF fin] by simp
    with True Cons.IH show ?thesis by (auto simp: word_less_def min_def)
  qed
qed

lemma nextsymb_loop_bound:
  assumes "higher = (\<lambda>t. uint (sy_value t)) `
                     {t \<in> set syms. sy_type t = 4 \<and> sy_value symbol < sy_value t}"
  shows "nextsymb_loop syms symbol 0xffffffff = (if higher = {} then 0xffffffff else Min higher)"
proof -
  have fin: "finite higher" by (simp add: assms)
  have le: "x \<le> 0xffffffff" if "x \<in> higher" for x
  proof -
    from that obtain t :: SymentHdr where "x = uint (sy_value t)" by (auto simp: assms)
    moreover have "uint (sy_value t) < 2 ^ 32" using uint_lt2p [of "sy_value t"] by simp
    ultimately show ?thesis by simp
  qed
  show ?thesis
  proof (cases "higher = {}")
    case True
    then show ?thesis
      unfolding nextsymb_loop_Min assms [symmetric] by simp
  next
    case False
    with fin have "Min higher \<in> higher" by simp
    then have "Min higher \<le> 0xffffffff" by (rule le)
    then have "min 0xffffffff (Min higher) = Min higher" by (rule min.absorb2)
    moreover have "Min (insert 0xffffffff higher) = min 0xffffffff (Min higher)"
      using fin False by (rule Min_insert)
    ultimately show ?thesis
      unfolding nextsymb_loop_Min assms [symmetric] using False by simp
  qed
qed

lemma nextsymb_loop_ge:
  "uint (sy_value symbol) \<le> nextsymb_loop syms symbol 0xffffffff"
proof -
  let ?A = "(\<lambda>t. uint (sy_value t)) `
              {t \<in> set syms. sy_type t = 4 \<and> sy_value symbol < sy_value t}"
  have "uint (sy_value symbol) < 2 ^ 32" using uint_lt2p [of "sy_value symbol"] by simp
  then have a: "uint (sy_value symbol) \<le> 0xffffffff" by simp
  have b: "uint (sy_value symbol) \<le> Min ?A" if "?A \<noteq> {}"
    using that by (auto simp: word_less_def)
  show ?thesis using a b by (simp add: nextsymb_loop_bound [OF refl])
qed

lemma py_index_valid:
  "1 \<le> k \<Longrightarrow> k \<le> length xs \<Longrightarrow> py_index xs (int k - 1) = Inr (xs ! (k - 1))"
  by (auto simp: py_index_def nat_diff_distrib')

lemma py_index_IndexError_iff:
  "py_index xs (int k - 1) = Inl IndexError \<longleftrightarrow> (k = 0 \<and> xs = []) \<or> length xs < k"
  by (cases xs) (auto simp: py_index_def)

lemma py_index_minus_one:
  "xs \<noteq> [] \<Longrightarrow> py_index xs (- 1) = Inr (last xs)"
  by (cases xs) (auto simp: py_index_def last_conv_nth simp del: last.simps)

lemma sectiondata_loop_find:
  "sectiondata_loop secs fl sname =
     (case find (\<lambda>s. sh_name s = sname) secs of
        None \<Rightarrow> Inr (None, fl)
      | Some S \<Rightarrow>
          (let bs = take (unat (sh_size S)) (drop (unat (sh_scnptr S)) (fdata fl))
           in Inr (Some bs, fl\<lparr>fpos := unat (sh_scnptr S) + length bs\<rparr>)))"
  by (induction secs) (simp_all add: fseek_uint fread_def Let_def)

lemma readstructs_Inl:
  assumes "\<And>bs. construct T (unpack_fields (structfmt T) bs) \<noteq> None"
  shows "readstructs T n fl = Inl e \<Longrightarrow> e = EOFError"
proof (induction n arbitrary: fl)
  case 0
  then show ?case by simp
next
  case (Suc n)
  show ?case
  proof (cases "readstruct T fl")
    case (Inl e')
    with Suc.prems have "e' = e" by simp
    with readstruct_Inl [OF assms Inl] show ?thesis by simp
  next
    case (Inr p)
    obtain x fl1 where p: "p = (x, fl1)" by (cases p)
    with Inr Suc.prems have "readstructs T n fl1 = Inl e"
      by (auto split: sum.splits)
    then show ?thesis by (rule Suc.IH)
  qed
qed

lemma reloc_loop_Inl: "reloc_loop rss fl m = Inl e \<Longrightarrow> e = EOFError"
proof (induction rss fl m rule: reloc_loop.induct)
  case (1 fl m)
  then show ?case by simp
next
  case (2 nm relptr nreloc rest fl m)
  show ?case
  proof (cases "readstructs RelocHdr_type (unat nreloc) (fl\<lparr>fpos := unat relptr\<rparr>)")
    case (Inl e')
    with "2.prems" have "e' = e" by (simp add: fseek_uint)
    with readstructs_Inl [OF construct_total(4) Inl] show ?thesis by simp
  next
    case (Inr p)
    obtain rl fl2 where p: "p = (rl, fl2)" by (cases p)
    with Inr "2.prems" have "reloc_loop rest fl2 (m(nm \<mapsto> rl)) = Inl e"
      by (simp add: fseek_uint)
    then show ?thesis by (rule "2.IH" [OF fseek_uint Inr [unfolded p] refl])
  qed
qed

lemma reloc_loop_complete:
  "reloc_loop rss fl m = Inr (m', fl') \<Longrightarrow> (nm, rp, nr) \<in> set rss \<Longrightarrow>
     \<exists>es. map Some es = records_at RelocHdr_type (fdata fl) (unat rp) (unat nr)"
proof (induction rss fl m rule: reloc_loop.induct)
  case (1 fl m)
  then show ?case by simp
next
  case (2 n relptr nreloc rest fl m)
  from "2.prems"(1) obtain rl fl2 where
    rd: "readstructs RelocHdr_type (unat nreloc) (fl\<lparr>fpos := unat relptr\<rparr>) = Inr (rl, fl2)"
    and rest: "reloc_loop rest fl2 (m(n \<mapsto> rl)) = Inr (m', fl')"
    by (auto simp: fseek_uint split: sum.splits)
  from rd have d2: "fdata fl2 = fdata fl"
    and rl: "map Some rl = records_at RelocHdr_type (fdata fl) (unat relptr) (unat nreloc)"
    by (simp_all add: readstructs_Inr_iff)
  show ?case
  proof (cases "(nm, rp, nr) = (n, relptr, nreloc)")
    case True
    with rl show ?thesis by auto
  next
    case False
    with "2.prems"(2) have "(nm, rp, nr) \<in> set rest" by auto
    from "2.IH" [OF fseek_uint rd refl rest this] d2 show ?thesis by simp
  qed
qed

lemma records_at_complete:
  assumes "map Some xs = records_at T bytes off n" and "i < n"
  shows "structlen T \<le> length bytes - (off + i * structlen T)"
proof -
  from assms(1) have "length xs = n"
    using records_at_length [of T bytes off n] by (metis length_map)
  with assms(2) have "map Some xs ! i = Some (xs ! i)" by simp
  with assms have "record_at T bytes (off + i * structlen T) = Some (xs ! i)"
    by (simp add: records_at_nth)
  then show ?thesis by (simp add: record_at_def split: if_splits)
qed

lemma read_opthdr_Inl: "read_opthdr fh fl = Inl e \<Longrightarrow> e = EOFError"
  by (auto simp: read_opthdr_def split: if_splits sum.splits
      dest: readstruct_Inl [OF construct_total(2)])

section \<open>The driver\<close>

lemma name_words:
  assumes "length (sy_orig_name s) = 8"
  shows "sy_name s =
           (if le_nat (take 4 (sy_orig_name s)) = 0 then Inr None
            else Inr (Some (rstrip_nul (sy_orig_name s))))"
    and "sy_offset s =
           (if le_nat (take 4 (sy_orig_name s)) = 0
            then Inr (int (le_nat (take 4 (drop 4 (sy_orig_name s))))) else Inr (- 1))"
  using assms
  by (simp_all add: sy_name_def sy_offset_def struct_unpack_def calcsize_def)

lemma sy_name_Inr_length:
  "sy_name s = Inr n \<Longrightarrow> length (sy_orig_name s) = 8"
  by (simp add: sy_name_def struct_unpack_def calcsize_def split: if_splits)

lemma lookup_loop_None_iff:
  assumes "sy_offset s = Inr key"
  shows "lookup_loop strs s acc = Inr r \<Longrightarrow>
     (r = None \<longleftrightarrow> acc = None \<and> key \<notin> fst ` set strs)"
proof (induction strs arbitrary: acc)
  case Nil
  then show ?case by simp
next
  case (Cons p strs)
  obtain off st where p: "p = (off, st)" by (cases p)
  from Cons.prems p assms
  have "lookup_loop strs s (if off = key then Some st else acc) = Inr r" by simp
  from Cons.IH [OF this] p show ?case by auto
qed

lemma lookup_loop_total:
  assumes "sy_offset s = Inr key"
  shows "\<exists>r. lookup_loop strs s acc = Inr r"
  using assms by (induction strs arbitrary: acc) auto

lemma unresolved_iff:
  assumes "length (sy_orig_name s) = 8"
  shows "unresolved c s \<longleftrightarrow>
     le_nat (take 4 (sy_orig_name s)) = 0 \<and>
     int (le_nat (take 4 (drop 4 (sy_orig_name s)))) \<notin> fst ` set (strings c)"
proof (cases "le_nat (take 4 (sy_orig_name s)) = 0")
  case True
  with name_words [OF assms] have n: "sy_name s = Inr None"
    and k: "sy_offset s = Inr (int (le_nat (take 4 (drop 4 (sy_orig_name s)))))" by simp_all
  from lookup_loop_total [OF k] obtain r where
    r: "lookup_loop (strings c) s None = Inr r" by blast
  from lookup_loop_None_iff [OF k r] n r True show ?thesis
    by (simp add: unresolved_def resolve_name_def)
next
  case False
  with name_words [OF assms] have "sy_name s = Inr (Some (rstrip_nul (sy_orig_name s)))"
    by simp
  with False show ?thesis by (simp add: unresolved_def resolve_name_def)
qed

lemma resolve_name_strings:
  "strings c1 = strings c \<Longrightarrow> resolve_name c1 s = resolve_name c s"
  by (simp add: resolve_name_def split: sum.splits option.splits)

lemma unresolved_strings:
  "strings c1 = strings c \<Longrightarrow> unresolved c1 = unresolved c"
proof
  fix s
  assume "strings c1 = strings c"
  then have "resolve_name c1 s = resolve_name c s" by (rule resolve_name_strings)
  then show "unresolved c1 s = unresolved c s" by (simp add: unresolved_def)
qed

lemma assigned_name_strings:
  "strings c1 = strings c \<Longrightarrow> assigned_name c1 = assigned_name c"
proof (intro ext)
  fix start syms j
  assume st: "strings c1 = strings c"
  have "resolve_name c1 (syms ! j) = resolve_name c (syms ! j)"
    using st by (rule resolve_name_strings)
  moreover have "unresolved c1 = unresolved c" using st by (rule unresolved_strings)
  ultimately show "assigned_name c1 start syms j = assigned_name c start syms j"
    by (simp add: assigned_name_def split: sum.split option.split)
qed

lemma symboldata_strings:
  "symboldata c s = Inr (bs, c') \<Longrightarrow> strings c' = strings c"
  by (auto simp: symboldata_def Let_def split: sum.splits prod.splits)

lemma driver_body_strings:
  "driver_body s (c, idx, w) = (r, (c', idx', w')) \<Longrightarrow> strings c' = strings c"
  by (auto simp: driver_body_def Let_def symboldata_strings split: sum.splits prod.splits)

lemma driver_body_unnamed:
  assumes "driver_body s (c, idx, w) = (r, (c', idx', w'))"
    and "resolve_name c s = Inl e"
  shows "r = Some e \<and> idx' = idx \<and> w' = w"
  using assms by (simp add: driver_body_def)

lemma driver_body_named:
  assumes "driver_body s (c, idx, w) = (r, (c', idx', w'))"
    and "resolve_name c s = Inr nm"
  shows "stdout w' =
           stdout w @ [''Doing symbol '' @
             (case nm of None \<Rightarrow> ''unknown'' @ show_nat idx | Some n \<Rightarrow> n)]"
    and "idx' = (case nm of None \<Rightarrow> idx + 1 | Some n \<Rightarrow> idx)"
  using assms
  by (auto simp: driver_body_def Let_def print_line_def open_w_def write_close_def
      split: sum.splits prod.splits if_splits)

lemma assigned_name_0:
  "resolve_name c s = Inr nm \<Longrightarrow>
     assigned_name c idx (s # rest) 0 =
       (case nm of None \<Rightarrow> ''unknown'' @ show_nat idx | Some n \<Rightarrow> n)"
  by (simp add: assigned_name_def split: option.splits)

lemma assigned_name_Suc:
  "resolve_name c s = Inr nm \<Longrightarrow>
     assigned_name c idx (s # rest) (Suc j) =
       assigned_name c (case nm of None \<Rightarrow> idx + 1 | Some n \<Rightarrow> idx) rest j"
  by (cases nm) (simp_all add: assigned_name_def unresolved_def split: sum.split option.split)

lemma driver_loop_log:
  "driver_loop syms (c, idx, w) = (r, (c', idx', w')) \<Longrightarrow>
     \<exists>k\<le>length syms.
        (r = None \<longrightarrow> k = length syms) \<and>
        stdout w' =
          stdout w @ map (\<lambda>j. ''Doing symbol '' @ assigned_name c idx syms j) [0..<k] \<and>
        idx' = idx + length (filter (unresolved c) (take k syms))"
proof (induction syms arbitrary: c idx w)
  case Nil
  then show ?case by simp
next
  case (Cons s rest)
  obtain rb c1 idx1 w1 where b: "driver_body s (c, idx, w) = (rb, (c1, idx1, w1))"
    by (metis prod_cases3)
  show ?case
  proof (cases "resolve_name c s")
    case (Inl e)
    from driver_body_unnamed [OF b Inl] b Cons.prems
    have "r = Some e" "idx' = idx" "w' = w" by auto
    then show ?thesis by (intro exI [of _ 0]) simp
  next
    case (Inr nm)
    note out = driver_body_named [OF b Inr]
    have cnt: "(case nm of None \<Rightarrow> idx + 1 | Some n \<Rightarrow> idx) =
        idx + length (filter (unresolved c) [s])"
      using Inr by (simp add: unresolved_def split: option.splits)
    show ?thesis
    proof (cases rb)
      case (Some e)
      with b Cons.prems have "r = Some e" "idx' = idx1" "w' = w1" by auto
      with out cnt Inr show ?thesis
        by (intro exI [of _ 1]) (simp add: assigned_name_0)
    next
      case None
      with b Cons.prems have l: "driver_loop rest (c1, idx1, w1) = (r, (c', idx', w'))"
        by simp
      from Cons.IH [OF l] obtain k where k: "k \<le> length rest"
        and fin: "r = None \<longrightarrow> k = length rest"
        and log: "stdout w' = stdout w1 @
            map (\<lambda>j. ''Doing symbol '' @ assigned_name c1 idx1 rest j) [0..<k]"
        and i: "idx' = idx1 + length (filter (unresolved c1) (take k rest))"
        by blast
      have st: "strings c1 = strings c" by (rule driver_body_strings [OF b])
      have up: "[0..<Suc k] = 0 # map Suc [0..<k]"
        by (simp add: upt_conv_Cons map_Suc_upt del: upt_Suc)
      have "stdout w' = stdout w @
          map (\<lambda>j. ''Doing symbol '' @ assigned_name c idx (s # rest) j) [0..<Suc k]"
        unfolding up using log out(1) out(2)
        by (simp add: comp_def assigned_name_0 [OF Inr] assigned_name_Suc [OF Inr]
            assigned_name_strings [OF st])
      moreover have "idx' = idx + length (filter (unresolved c) (take (Suc k) (s # rest)))"
        using i out(2) cnt by (simp add: unresolved_strings [OF st])
      ultimately show ?thesis using k fin
        by (intro exI [of _ "Suc k"]) simp
    qed
  qed
qed

lemma show_nat_1: "show_nat (Suc 0) = ''1''"
  by (simp add: show_nat.simps digit_char_def char_of_def bit_Suc_0_iff)

lemma show_nat_2: "show_nat (Suc (Suc 0)) = ''2''"
proof -
  have "show_nat 2 = ''2''"
    by (simp add: show_nat.simps digit_char_def char_of_def bit_Suc_0_iff)
  then show ?thesis by (simp add: numeral_2_eq_2)
qed

lemma example_driver_symbols:
  "driver_symbols example_coff = [sym_foo, sym_anon1, sym_main, sym_anon2]"
  by (simp add: driver_symbols_def example_coff_simps example_defs)

lemma example_driver_run:
  "driver example_coff example_world =
     (None,
      (example_coff\<lparr>cfile := \<lparr>fdata = example_bytes, fpos = 248\<rparr>\<rparr>, 3,
       \<lparr>stdout = [''Doing symbol foo'', ''Doing symbol unknown1'', ''Doing symbol main'',
                  ''Doing symbol unknown2''],
        files = (files example_world)
                  (''func/foo'' \<mapsto> ''AB'', ''func/unknown1'' \<mapsto> ''CD'',
                   ''func/main'' \<mapsto> ''EF'', ''func/unknown2'' \<mapsto> ''GH''),
        writable = (\<lambda>path. True)\<rparr>))"
  apply (simp add: driver_def example_driver_symbols)
  apply (simp add: driver_body_def resolve_name_def sy_name_def sy_offset_def struct_unpack_def
      calcsize_def rstrip_nul_def example_coff_simps example_defs example_world_def
      print_line_def open_w_def write_close_def symboldata_def py_index_def fseek_def
      fread_def example_bytes_def show_nat_1 show_nat_2 Let_def)
  done

lemma example_driver_abort:
  "driver example_coff example_world_ro =
     (Some IOError,
      (example_coff\<lparr>cfile := \<lparr>fdata = example_bytes, fpos = 244\<rparr>\<rparr>, 2,
       \<lparr>stdout = [''Doing symbol foo'', ''Doing symbol unknown1'', ''Doing symbol main''],
        files = (files example_world_ro)
                  (''func/foo'' \<mapsto> ''AB'', ''func/unknown1'' \<mapsto> ''CD''),
        writable = (\<lambda>path. path \<noteq> ''func/main'')\<rparr>))"
  apply (simp add: driver_def example_driver_symbols)
  apply (simp add: driver_body_def resolve_name_def sy_name_def sy_offset_def struct_unpack_def
      calcsize_def rstrip_nul_def example_coff_simps example_defs example_world_ro_def
      print_line_def open_w_def write_close_def symboldata_def py_index_def fseek_def
      fread_def example_bytes_def show_nat_1 show_nat_2 Let_def)
  done

section \<open>The turns of the driver's loop\<close>

lemma pyfile_fpos_eq:
  fixes a b :: pyfile
  shows "fdata a = fdata b \<Longrightarrow> a\<lparr>fpos := p\<rparr> = b\<lparr>fpos := p\<rparr>"
  by (cases a, cases b) simp

lemma symboldata_cfile:
  assumes "fdata fl = fdata (cfile c)"
  shows "symboldata (c\<lparr>cfile := fl\<rparr>) s = symboldata c s"
proof -
  have "fl\<lparr>fpos := p\<rparr> = (cfile c)\<lparr>fpos := p\<rparr>" for p
    using assms by (rule pyfile_fpos_eq)
  then show ?thesis
    by (simp add: symboldata_def fseek_def Let_def split: sum.split)
qed

lemma symboldata_Inr:
  assumes "symboldata c s = Inr (bs, c2)"
  shows "c2 = c\<lparr>cfile := cfile c2\<rparr> \<and> fdata (cfile c2) = fdata (cfile c)"
  using assms
  by (auto simp: symboldata_def fseek_def fread_def Let_def split: sum.splits if_splits)


lemma turn_congs:
  assumes "c2 = c\<lparr>cfile := fl\<rparr>" and "fdata fl = fdata (cfile c)"
    and "writable w2 = writable w"
  shows "assigned_name c2 = assigned_name c" and "unresolved c2 = unresolved c"
    and "resolves c2 = resolves c" and "turn_path c2 = turn_path c"
    and "turn_bytes c2 = turn_bytes c" and "turn_opens c2 w2 = turn_opens c w"
    and "turn_failure c2 w2 = turn_failure c w"
proof -
  have st: "strings c2 = strings c" using assms(1) by simp
  have sd: "symboldata c2 s = symboldata c s" for s
    unfolding assms(1) using assms(2) by (rule symboldata_cfile)
  have rn: "resolve_name c2 s = resolve_name c s" for s
    using st by (rule resolve_name_strings)
  show an: "assigned_name c2 = assigned_name c" using st by (rule assigned_name_strings)
  show "unresolved c2 = unresolved c" using st by (rule unresolved_strings)
  show rs: "resolves c2 = resolves c" by (rule ext) (simp add: resolves_def rn)
  show tp: "turn_path c2 = turn_path c" by (intro ext) (simp add: turn_path_def an)
  show "turn_bytes c2 = turn_bytes c" by (rule ext) (simp add: turn_bytes_def sd)
  show "turn_opens c2 w2 = turn_opens c w"
    by (intro ext) (simp add: turn_opens_def rs tp assms(3))
  show "turn_failure c2 w2 = turn_failure c w"
    by (intro ext) (simp add: turn_failure_def rn tp sd assms(3) split: sum.split)
qed

lemma turn_shifts:
  "assigned_name c idx (s # rest) (Suc j) =
     assigned_name c (idx + length (filter (unresolved c) [s])) rest j"
  "turn_path c idx (s # rest) (Suc j) =
     turn_path c (idx + length (filter (unresolved c) [s])) rest j"
  "turn_opens c w idx (s # rest) (Suc j) =
     turn_opens c w (idx + length (filter (unresolved c) [s])) rest j"
  "turn_failure c w idx (s # rest) (Suc j) =
     turn_failure c w (idx + length (filter (unresolved c) [s])) rest j"
proof -
  show a: "assigned_name c idx (s # rest) (Suc j) =
     assigned_name c (idx + length (filter (unresolved c) [s])) rest j"
    by (simp add: assigned_name_def split: sum.split option.split)
  show p: "turn_path c idx (s # rest) (Suc j) =
     turn_path c (idx + length (filter (unresolved c) [s])) rest j"
    by (simp only: turn_path_def a)
  show "turn_opens c w idx (s # rest) (Suc j) =
     turn_opens c w (idx + length (filter (unresolved c) [s])) rest j"
    by (simp only: turn_opens_def p nth_Cons_Suc)
  show "turn_failure c w idx (s # rest) (Suc j) =
     turn_failure c w (idx + length (filter (unresolved c) [s])) rest j"
    by (simp only: turn_failure_def p nth_Cons_Suc)
qed

lemma driver_body_turn:
  assumes "driver_body s (c, idx, w) = (rb, (c1, idx1, w1))"
  shows "rb = turn_failure c w idx (s # rest) 0"
    and "stdout w1 =
           stdout w @
           (if resolves c s then [''Doing symbol '' @ assigned_name c idx (s # rest) 0]
            else [])"
    and "idx1 = idx + length (filter (unresolved c) [s])"
    and "files w1 =
           (if rb = None
            then (files w)(turn_path c idx (s # rest) 0 \<mapsto> turn_bytes c s)
            else if turn_opens c w idx (s # rest) 0
                 then (files w)(turn_path c idx (s # rest) 0 \<mapsto> [])
                 else files w)"
    and "writable w1 = writable w"
    and "c1 = c\<lparr>cfile := cfile c1\<rparr>" and "fdata (cfile c1) = fdata (cfile c)"
proof -
  have an: "assigned_name c idx (s # rest) 0 =
      (case resolve_name c s of
         Inr (Some n) \<Rightarrow> n
       | _ \<Rightarrow> ''unknown'' @ show_nat idx)"
    by (simp add: assigned_name_def split: sum.split option.split)
  note defs = driver_body_def turn_failure_def turn_path_def turn_opens_def turn_bytes_def
    resolves_def unresolved_def an Let_def print_line_def open_w_def write_close_def
  show "rb = turn_failure c w idx (s # rest) 0"
    using assms by (auto simp: defs split: sum.splits option.splits if_splits)
  show "stdout w1 =
           stdout w @
           (if resolves c s then [''Doing symbol '' @ assigned_name c idx (s # rest) 0]
            else [])"
    using assms by (auto simp: defs split: sum.splits option.splits if_splits)
  show "idx1 = idx + length (filter (unresolved c) [s])"
    using assms by (auto simp: defs split: sum.splits option.splits if_splits)
  show "files w1 =
           (if rb = None
            then (files w)(turn_path c idx (s # rest) 0 \<mapsto> turn_bytes c s)
            else if turn_opens c w idx (s # rest) 0
                 then (files w)(turn_path c idx (s # rest) 0 \<mapsto> [])
                 else files w)"
    using assms by (auto simp: defs split: sum.splits option.splits if_splits)
  show "writable w1 = writable w"
    using assms by (auto simp: defs split: sum.splits option.splits if_splits)
  show "c1 = c\<lparr>cfile := cfile c1\<rparr>" and "fdata (cfile c1) = fdata (cfile c)"
    using assms
    by (auto simp: defs dest: symboldata_Inr split: sum.splits option.splits if_splits)
qed


lemma unresolved_resolves: "unresolved c s \<Longrightarrow> resolves c s"
  by (simp add: unresolved_def resolves_def)

lemma turn_failure_None:
  "turn_failure c w idx syms j = None \<Longrightarrow>
     resolves c (syms ! j) \<and> turn_opens c w idx syms j"
  by (auto simp: turn_failure_def turn_opens_def resolves_def split: sum.splits if_splits)

lemma upt_Suc_shift: "[0..<Suc n] = 0 # map Suc [0..<n]"
  by (simp add: upt_conv_Cons map_Suc_upt del: upt_Suc)

lemma driver_loop_described:
  "driver_loop syms (c, idx, w) = (r, (c', idx', w')) \<Longrightarrow>
     \<exists>k\<le>length syms.
        (\<forall>j<k. turn_failure c w idx syms j = None) \<and>
        (k = length syms \<longrightarrow> r = None) \<and>
        (k < length syms \<longrightarrow> r = turn_failure c w idx syms k \<and> r \<noteq> None) \<and>
        stdout w' =
          stdout w @
          map (\<lambda>j. ''Doing symbol '' @ assigned_name c idx syms j)
            [0..<(if k < length syms \<and> resolves c (syms ! k) then Suc k else k)] \<and>
        idx' =
          idx + length (filter (unresolved c)
                  (take (if k < length syms \<and> resolves c (syms ! k) then Suc k else k) syms)) \<and>
        files w' =
          (if k < length syms \<and> turn_opens c w idx syms k
           then (foldl (\<lambda>m j. m(turn_path c idx syms j \<mapsto> turn_bytes c (syms ! j)))
                   (files w) [0..<k])
                (turn_path c idx syms k \<mapsto> [])
           else foldl (\<lambda>m j. m(turn_path c idx syms j \<mapsto> turn_bytes c (syms ! j)))
                  (files w) [0..<k]) \<and>
        writable w' = writable w \<and>
        c' = c\<lparr>cfile := cfile c'\<rparr> \<and> fdata (cfile c') = fdata (cfile c)"
proof (induction syms arbitrary: c idx w)
  case Nil
  then show ?case by simp
next
  case (Cons s rest)
  obtain rb c1 idx1 w1 where b: "driver_body s (c, idx, w) = (rb, (c1, idx1, w1))"
    by (metis prod_cases3)
  note t = driver_body_turn(1) [OF b, of rest] driver_body_turn(2) [OF b, of rest]
    driver_body_turn(3) [OF b] driver_body_turn(4) [OF b, of rest]
    driver_body_turn(5-7) [OF b]
  show ?case
  proof (cases rb)
    case (Some e)
    with b Cons.prems have e: "r = Some e" "c' = c1" "idx' = idx1" "w' = w1" by auto
    from t(1) Some have tf: "turn_failure c w idx (s # rest) 0 = Some e" by simp
    from t(4) Some tf have fw: "files w1 =
        (if turn_opens c w idx (s # rest) 0
         then (files w)(turn_path c idx (s # rest) 0 \<mapsto> []) else files w)" by simp
    have u: "length (filter (unresolved c) [s]) = 0" if "\<not> resolves c s"
      using that unresolved_resolves [of c s] by auto
    have "(\<forall>j<0. turn_failure c w idx (s # rest) j = None) \<and>
        (0 = length (s # rest) \<longrightarrow> r = None) \<and>
        (0 < length (s # rest) \<longrightarrow> r = turn_failure c w idx (s # rest) 0 \<and> r \<noteq> None) \<and>
        stdout w' =
          stdout w @
          map (\<lambda>j. ''Doing symbol '' @ assigned_name c idx (s # rest) j)
            [0..<(if 0 < length (s # rest) \<and> resolves c ((s # rest) ! 0) then Suc 0 else 0)] \<and>
        idx' =
          idx + length (filter (unresolved c)
                  (take (if 0 < length (s # rest) \<and> resolves c ((s # rest) ! 0)
                         then Suc 0 else 0) (s # rest))) \<and>
        files w' =
          (if 0 < length (s # rest) \<and> turn_opens c w idx (s # rest) 0
           then (foldl (\<lambda>m j. m(turn_path c idx (s # rest) j \<mapsto>
                                   turn_bytes c ((s # rest) ! j)))
                   (files w) [0..<0])
                (turn_path c idx (s # rest) 0 \<mapsto> [])
           else foldl (\<lambda>m j. m(turn_path c idx (s # rest) j \<mapsto>
                                  turn_bytes c ((s # rest) ! j)))
                  (files w) [0..<0]) \<and>
        writable w' = writable w \<and>
        c' = c\<lparr>cfile := cfile c'\<rparr> \<and> fdata (cfile c') = fdata (cfile c)"
      using tf fw t(2,3,5,6,7) e u by auto
    then show ?thesis by (intro exI [of _ 0]) auto
  next
    case None
    with b Cons.prems have l: "driver_loop rest (c1, idx1, w1) = (r, (c', idx', w'))"
      by simp
    from t(1) None have t0: "turn_failure c w idx (s # rest) 0 = None" by simp
    from turn_failure_None [OF t0] have rs: "resolves c s"
      and op: "turn_opens c w idx (s # rest) 0" by simp_all
    note cg = turn_congs [OF t(6) t(7) t(5)]
    let ?i = "idx + length (filter (unresolved c) [s])"
    from Cons.IH [OF l] obtain k where k: "k \<le> length rest"
      and clean: "\<forall>j<k. turn_failure c1 w1 idx1 rest j = None"
      and fin: "k = length rest \<longrightarrow> r = None"
      and fail: "k < length rest \<longrightarrow> r = turn_failure c1 w1 idx1 rest k \<and> r \<noteq> None"
      and out: "stdout w' =
          stdout w1 @
          map (\<lambda>j. ''Doing symbol '' @ assigned_name c1 idx1 rest j)
            [0..<(if k < length rest \<and> resolves c1 (rest ! k) then Suc k else k)]"
      and cnt: "idx' =
          idx1 + length (filter (unresolved c1)
                  (take (if k < length rest \<and> resolves c1 (rest ! k) then Suc k else k) rest))"
      and fs: "files w' =
          (if k < length rest \<and> turn_opens c1 w1 idx1 rest k
           then (foldl (\<lambda>m j. m(turn_path c1 idx1 rest j \<mapsto> turn_bytes c1 (rest ! j)))
                   (files w1) [0..<k])
                (turn_path c1 idx1 rest k \<mapsto> [])
           else foldl (\<lambda>m j. m(turn_path c1 idx1 rest j \<mapsto> turn_bytes c1 (rest ! j)))
                  (files w1) [0..<k])"
      and wr: "writable w' = writable w1"
      and cc: "c' = c1\<lparr>cfile := cfile c'\<rparr>" and fd: "fdata (cfile c') = fdata (cfile c1)"
      by blast
    let ?p = "if k < length rest \<and> resolves c (rest ! k) then Suc k else k"
    have a1: "\<forall>j<Suc k. turn_failure c w idx (s # rest) j = None"
    proof (intro allI impI)
      fix j assume "j < Suc k"
      show "turn_failure c w idx (s # rest) j = None"
      proof (cases j)
        case 0
        with t0 show ?thesis by simp
      next
        case (Suc i)
        with \<open>j < Suc k\<close> clean have "turn_failure c1 w1 idx1 rest i = None" by simp
        with Suc show ?thesis by (simp add: turn_shifts cg t(3))
      qed
    qed
    have a2: "Suc k = length (s # rest) \<longrightarrow> r = None" using fin by simp
    have a3: "Suc k < length (s # rest) \<longrightarrow>
        r = turn_failure c w idx (s # rest) (Suc k) \<and> r \<noteq> None"
      using fail unfolding turn_shifts cg t(3) by (auto simp del: filter.simps)
    have pe: "(if Suc k < length (s # rest) \<and> resolves c ((s # rest) ! Suc k)
               then Suc (Suc k) else Suc k) = Suc ?p" by simp
    have a4: "stdout w' =
        stdout w @
        map (\<lambda>j. ''Doing symbol '' @ assigned_name c idx (s # rest) j)
          [0..<(if Suc k < length (s # rest) \<and> resolves c ((s # rest) ! Suc k)
                then Suc (Suc k) else Suc k)]"
      unfolding pe upt_Suc_shift [of ?p]
      using out t(2) rs by (simp add: comp_def turn_shifts cg t(3))
    have a5: "idx' = idx + length (filter (unresolved c)
        (take (if Suc k < length (s # rest) \<and> resolves c ((s # rest) ! Suc k)
               then Suc (Suc k) else Suc k) (s # rest)))"
      unfolding pe using cnt by (simp add: cg t(3))
    let ?G = "\<lambda>m j. m(turn_path c idx (s # rest) j \<mapsto> turn_bytes c ((s # rest) ! j))"
    let ?H = "\<lambda>m j. m(turn_path c ?i rest j \<mapsto> turn_bytes c (rest ! j))"
    have f1: "files w1 = ?G (files w) 0" using t(4) None by simp
    have f2: "foldl ?G (files w) [0..<Suc k] = foldl ?H (files w1) [0..<k]"
      unfolding upt_Suc_shift [of k] f1
      by (simp add: foldl_map turn_shifts)
    have f3: "turn_path c idx (s # rest) (Suc k) = turn_path c ?i rest k"
      by (simp add: turn_shifts)
    have a6: "files w' =
        (if Suc k < length (s # rest) \<and> turn_opens c w idx (s # rest) (Suc k)
         then (foldl ?G (files w) [0..<Suc k])(turn_path c idx (s # rest) (Suc k) \<mapsto> [])
         else foldl ?G (files w) [0..<Suc k])"
      unfolding f2 f3 using fs by (simp add: turn_shifts cg t(3))
    have a7: "writable w' = writable w" using wr t(5) by simp
    have a8: "c' = c\<lparr>cfile := cfile c'\<rparr>"
    proof -
      from cc have "c' = c1\<lparr>cfile := cfile c'\<rparr>" .
      also have "c1 = c\<lparr>cfile := cfile c1\<rparr>" by (rule t(6))
      finally show ?thesis by simp
    qed
    have a9: "fdata (cfile c') = fdata (cfile c)" using fd t(7) by simp
    from k have a0: "Suc k \<le> length (s # rest)" by simp
    from a0 a1 a2 a3 a4 a5 a6 a7 a8 a9 show ?thesis by blast
  qed
qed

section \<open>When the string-table scan returns\<close>

text \<open>
  The scan returns whenever the file has the \<open>nstrs\<close> bytes that the
  length field announces. Once it stands at the end of the file with the
  offset still below \<open>nstrs\<close> it appends empty strings for ever.
\<close>

lemma inner_loop_file:
  "inner_loop s b fl = (s', fl') \<Longrightarrow> fdata fl' = fdata fl \<and> fpos fl \<le> fpos fl'"
proof (induction s b fl rule: inner_loop.induct)
  case (1 s b fl)
  show ?case
  proof (cases "b \<noteq> [] \<and> b \<noteq> [CHR 0x00]")
    case False
    with "1.prems" show ?thesis by (simp add: inner_loop.simps)
  next
    case True
    obtain b1 fl1 where r: "fread fl 1 = (b1, fl1)" by (cases "fread fl 1")
    with True "1.prems" have "inner_loop (s @ b) b1 fl1 = (s', fl')"
      by (simp add: inner_loop.simps [of s b fl])
    from "1.IH" [OF True r [symmetric] this] r show ?thesis
      by (auto simp: fread_def Let_def)
  qed
qed

lemma strings_loop_stuck:
  assumes "length (fdata fl) \<le> fpos fl" and "int (fpos fl) - int baseoff < int nstrs"
  shows "strings_loop fl baseoff nstrs acc = None"
proof (rule ccontr)
  assume "strings_loop fl baseoff nstrs acc \<noteq> None"
  then obtain y where y: "strings_loop fl baseoff nstrs acc = Some y" by auto
  have il: "inner_loop [] [] f = ([], f)" for f
    by (simp add: inner_loop.simps)
  have "\<not> (length (fdata fl) \<le> fpos fl \<and> int (fpos fl) - int baseoff < int nstrs)"
    by (rule strings_loop.raw_induct
        [where P = "\<lambda>fl baseoff nstrs acc y.
           \<not> (length (fdata fl) \<le> fpos fl \<and> int (fpos fl) - int baseoff < int nstrs)",
         OF _ y])
      (auto simp: fread_def Let_def ftell_def il)
  with assms show False by simp
qed

lemma strings_loop_returns:
  "int nstrs \<le> int (length (fdata fl)) - int baseoff \<Longrightarrow>
     \<exists>r. strings_loop fl baseoff nstrs acc = Some r"
proof (induction "length (fdata fl) - fpos fl" arbitrary: fl acc rule: less_induct)
  case less
  show ?case
  proof (cases "int (fpos fl) - int baseoff \<ge> int nstrs")
    case True
    then show ?thesis by (simp add: strings_loop.simps [of fl] ftell_def)
  next
    case False
    with less.prems have lt: "fpos fl < length (fdata fl)" by simp
    obtain b fl1 where r: "fread fl 1 = (b, fl1)" by (cases "fread fl 1")
    with lt have fl1: "fdata fl1 = fdata fl" "fpos fl1 = Suc (fpos fl)"
      by (auto simp: fread_def Let_def min_def)
    obtain s fl2 where i: "inner_loop [] b fl1 = (s, fl2)" by (cases "inner_loop [] b fl1")
    from inner_loop_file [OF i] fl1 have fl2: "fdata fl2 = fdata fl" "fpos fl < fpos fl2"
      by simp_all
    with lt have m: "length (fdata fl2) - fpos fl2 < length (fdata fl) - fpos fl" by simp
    from less.prems fl2 have "int nstrs \<le> int (length (fdata fl2)) - int baseoff" by simp
    from less.hyps [OF m this] obtain r' where
      "strings_loop fl2 baseoff nstrs (acc @ [(int (fpos fl) - int baseoff, s)]) = Some r'"
      by blast
    with False r i show ?thesis
      by (simp add: strings_loop.simps [of fl] ftell_def)
  qed
qed

section \<open>Symbol names\<close>

text \<open>
  C4. For a symbol whose raw name has its 8 bytes, read as the little-endian
  words \<open>w0\<close> and \<open>w1\<close>: when \<open>w0\<close> is 0 the symbol has no inline name and
  its string-table key is \<open>w1\<close>; otherwise its name is the raw bytes without
  the trailing null bytes and its key is \<open>-1\<close>, no key. Nothing but \<open>w0 = 0\<close>
  decides between the two.
\<close>

theorem name_resolution_total_exclusive:
  assumes "length (sy_orig_name s) = 8"
  shows "let w0 = le_nat (take 4 (sy_orig_name s));
             w1 = le_nat (take 4 (drop 4 (sy_orig_name s)))
         in (w0 = 0 \<longrightarrow> sy_name s = Inr None \<and> sy_offset s = Inr (int w1)) \<and>
            (w0 \<noteq> 0 \<longrightarrow>
               sy_name s = Inr (Some (rstrip_nul (sy_orig_name s))) \<and>
               sy_offset s = Inr (- 1))"
  using assms
  by (simp add: sy_name_def sy_offset_def struct_unpack_def calcsize_def Let_def)

theorem name_resolution_witness:
  "length (sy_orig_name sym_main) = 8 \<and>
   sy_name sym_main = Inr (Some ''main'') \<and> sy_offset sym_main = Inr (- 1) \<and>
   length (sy_orig_name sym_foo) = 8 \<and>
   sy_name sym_foo = Inr None \<and> sy_offset sym_foo = Inr 4"
proof -
  have a: "length (sy_orig_name sym_main) = 8"
    by (simp add: sym_main_def)
  have b: "length (sy_orig_name sym_foo) = 8"
    by (simp add: sym_foo_def)
  show ?thesis
    using a b name_resolution_total_exclusive [OF a] name_resolution_total_exclusive [OF b]
    by (simp add: sym_main_def sym_foo_def rstrip_nul_def Let_def)
qed

section \<open>The string-table scan\<close>

lemma strings_scan_example:
  "read_strings \<lparr>fdata = pre @ strtab_example @ post, fpos = length pre\<rparr> =
     Some (Inr ([(4, ''foo''), (8, ''bar'')],
                \<lparr>fdata = pre @ strtab_example @ post, fpos = length pre + 12\<rparr>))"
  apply (simp add: read_strings_def strtab_example_def fread_def ftell_def
      struct_unpack_def calcsize_def)
  apply (simp add: strings_loop.simps inner_loop.simps fread_def ftell_def)
  done

text \<open>
  C3, as the code has it. On the string table with length 10 and the bytes
  \<open>foo\<close>, null, \<open>bar\<close>, three nulls, wherever it lies in the file and
  whatever follows it, the scan yields the pairs \<open>(4, foo)\<close> and
  \<open>(8, bar)\<close>: offsets count from the first byte of the length field. It
  stops with the file at offset 12 of the table, the first offset of a string
  that is not below 10.
\<close>

theorem strings_scan_offsets:
  "read_strings \<lparr>fdata = pre @ strtab_example @ post, fpos = length pre\<rparr> =
     Some (Inr ([(4, ''foo''), (8, ''bar'')],
                \<lparr>fdata = pre @ strtab_example @ post, fpos = length pre + 12\<rparr>))"
  by (rule strings_scan_example)

text \<open>
  C3, as the specification words it, fails: the scan of that table does not
  yield \<open>(0, foo)\<close> and \<open>(4, bar)\<close>.
\<close>

theorem strings_scan_counterexample:
  "map_option (map_sum id fst) (read_strings \<lparr>fdata = strtab_example, fpos = 0\<rparr>)
     \<noteq> Some (Inr [(0, ''foo''), (4, ''bar'')])"
  using strings_scan_example [of "[]" "[]"] by simp

section \<open>What a parsed container holds\<close>



text \<open>
  C10. In a parsed container, a name that one or more sections with a non-zero
  \<open>relptr\<close> carry (in particular two or more) is associated in \<open>reloc\<close>
  with the relocation entries of the last of them in section order, and with
  nothing else: these are the \<open>nreloc\<close> records of 12 bytes at that
  section's \<open>relptr\<close>. What the earlier sections of the name had read is
  not in the container.
\<close>

theorem reloc_last_section_wins:
  assumes "Coff_init fl = Some (Inr c)"
    and "same = filter (\<lambda>s. sh_relptr s \<noteq> 0 \<and> sh_name s = nm) (sechdr c)"
    and "same \<noteq> []"
  shows "\<exists>es. reloc c nm = Some es \<and>
           map Some es =
             records_at RelocHdr_type (fdata fl) (unat (sh_relptr (last same)))
               (unat (sh_nreloc (last same)))"
proof -
  from Coff_init_layout(5) [OF assms(1)] obtain fl3 fl4 where
    d: "fdata fl3 = fdata fl" and
    r: "reloc_loop (relocsecs (sechdr c)) fl3 Map.empty = Inr (reloc c, fl4)" by blast
  let ?g = "\<lambda>s. (sh_name s, sh_relptr s, sh_nreloc s)"
  have f: "filter (\<lambda>rs. fst rs = nm) (relocsecs (sechdr c)) = map ?g same"
    by (simp add: relocsecs_def assms(2) filter_map comp_def conj_commute)
  with assms(3) have ne: "filter (\<lambda>rs. fst rs = nm) (relocsecs (sechdr c)) \<noteq> []" by simp
  from f assms(3) have l: "last (filter (\<lambda>rs. fst rs = nm) (relocsecs (sechdr c))) =
      (sh_name (last same), sh_relptr (last same), sh_nreloc (last same))"
    by (simp add: last_map)
  from reloc_loop_last [OF r ne l] d show ?thesis by simp
qed

theorem reloc_last_section_wins_witness:
  "Coff_init \<lparr>fdata = example_bytes, fpos = 0\<rparr> = Some (Inr example_coff) \<and>
   filter (\<lambda>s. sh_relptr s \<noteq> 0 \<and> sh_name s = ''.text'') (sechdr example_coff) =
     [example_sec1, example_sec2] \<and>
   reloc example_coff ''.text'' = Some [example_rel2] \<and>
   records_at RelocHdr_type example_bytes 118 1 = [Some example_rel1] \<and>
   records_at RelocHdr_type example_bytes 130 1 = [Some example_rel2] \<and>
   example_rel1 \<noteq> example_rel2"
proof -
  have same: "[example_sec1, example_sec2] =
      filter (\<lambda>s. sh_relptr s \<noteq> 0 \<and> sh_name s = ''.text'') (sechdr example_coff)"
    by (simp add: example_coff_simps example_sec1_def example_sec2_def sh_name_def rstrip_nul_def)
  have ne: "[example_sec1, example_sec2] \<noteq> []" by simp
  have r1: "records_at RelocHdr_type example_bytes 118 1 = [Some example_rel1]"
    by (simp add: records_at_def record_at_def structlen_def calcsize_def RelocHdr_type_def
        new_RelocHdr_def example_bytes_def example_rel1_def)
  have d: "example_rel1 \<noteq> example_rel2"
    by (simp add: example_rel1_def example_rel2_def)
  from reloc_last_section_wins [OF example_parse same ne] example_parse same r1 d
  show ?thesis
    by (auto simp: example_coff_simps example_sec2_def)
qed

section \<open>The span of a symbol\<close>

text \<open>
  C2. For a symbol whose section number is a valid 1-based index into the
  section list and whose value lies within its section \<open>S\<close>, from
  \<open>S.vaddr\<close> up to but not including \<open>S.vaddr + S.size\<close>,
  \<open>symboldata\<close> reads from file offset \<open>S.scnptr + (value - S.vaddr)\<close>
  and asks for \<open>bound - value\<close> bytes, where \<open>bound\<close> is the least value
  above the symbol's own among all type-4 symbols of the table, whatever their
  section, and \<open>0xffffffff\<close> when there is none. Neither the offset nor the
  count is negative, and what comes back are the bytes the file has there.
\<close>

theorem symboldata_offset_and_span:
  assumes "1 \<le> unat (sy_scnum symbol)" and "unat (sy_scnum symbol) \<le> length (sechdr c)"
    and "S = sechdr c ! (unat (sy_scnum symbol) - 1)"
    and "uint (sh_vaddr S) \<le> uint (sy_value symbol)"
    and "uint (sy_value symbol) < uint (sh_vaddr S) + uint (sh_size S)"
    and "higher = (\<lambda>t. uint (sy_value t)) `
                    {t \<in> set (symbols c). sy_type t = 4 \<and> sy_value symbol < sy_value t}"
    and "bound = (if higher = {} then 0xffffffff else Min higher)"
    and "start = uint (sh_scnptr S) + (uint (sy_value symbol) - uint (sh_vaddr S))"
  shows "0 \<le> start \<and> 0 \<le> bound - uint (sy_value symbol) \<and>
         symboldata c symbol =
           (case fread ((cfile c)\<lparr>fpos := nat start\<rparr>) (bound - uint (sy_value symbol)) of
              (bs, fl) \<Rightarrow> Inr (bs, c\<lparr>cfile := fl\<rparr>)) \<and>
         (let bs = take (nat (bound - uint (sy_value symbol)))
                     (drop (nat start) (fdata (cfile c)))
          in symboldata c symbol =
               Inr (bs, c\<lparr>cfile := (cfile c)\<lparr>fpos := nat start + length bs\<rparr>\<rparr>))"
proof -
  have idx: "py_index (sechdr c) (uint (sy_scnum symbol) - 1) = Inr S"
    using py_index_valid [OF assms(1,2)] assms(3) by simp
  have b: "nextsymb_loop (symbols c) symbol 0xffffffff = bound"
    using nextsymb_loop_bound [OF assms(6)] assms(7) by simp
  have ge: "uint (sy_value symbol) \<le> bound"
    using nextsymb_loop_ge [of symbol "symbols c"] b by simp
  have st: "0 \<le> start" using assms(4,8) by simp
  have sk: "fseek (cfile c) (uint (sh_scnptr S) + uint (sy_value symbol) - uint (sh_vaddr S)) =
      Inr ((cfile c)\<lparr>fpos := nat start\<rparr>)"
    using st assms(8) by (simp add: fseek_def algebra_simps)
  have eq: "symboldata c symbol =
      (case fread ((cfile c)\<lparr>fpos := nat start\<rparr>) (bound - uint (sy_value symbol)) of
         (bs, fl) \<Rightarrow> Inr (bs, c\<lparr>cfile := fl\<rparr>))"
    by (simp add: symboldata_def idx sk b)
  from ge have "\<not> bound - uint (sy_value symbol) < 0" by simp
  then have "let bs = take (nat (bound - uint (sy_value symbol)))
                        (drop (nat start) (fdata (cfile c)))
             in symboldata c symbol =
                  Inr (bs, c\<lparr>cfile := (cfile c)\<lparr>fpos := nat start + length bs\<rparr>\<rparr>)"
    unfolding eq by (simp add: fread_def Let_def)
  with st ge eq show ?thesis by simp
qed

theorem symboldata_offset_and_span_witness:
  "symboldata example_coff sym_foo =
     Inr (''AB'', example_coff\<lparr>cfile := \<lparr>fdata = example_bytes, fpos = 242\<rparr>\<rparr>) \<and>
   symboldata example_coff sym_anon2 =
     Inr (''GH'', example_coff\<lparr>cfile := \<lparr>fdata = example_bytes, fpos = 248\<rparr>\<rparr>)"
proof -
  have n: "1 \<le> unat (sy_scnum sym_foo)" "unat (sy_scnum sym_foo) \<le> length (sechdr example_coff)"
    "1 \<le> unat (sy_scnum sym_anon2)" "unat (sy_scnum sym_anon2) \<le> length (sechdr example_coff)"
    by (simp_all add: sym_foo_def sym_anon2_def example_coff_simps)
  have S: "example_sec2 = sechdr example_coff ! (unat (sy_scnum sym_foo) - 1)"
    "example_sec2 = sechdr example_coff ! (unat (sy_scnum sym_anon2) - 1)"
    by (simp_all add: sym_foo_def sym_anon2_def example_coff_simps)
  have lo: "uint (sh_vaddr example_sec2) \<le> uint (sy_value sym_foo)"
    "uint (sh_vaddr example_sec2) \<le> uint (sy_value sym_anon2)"
    by (simp_all add: sym_foo_def sym_anon2_def example_sec2_def)
  have hi: "uint (sy_value sym_foo) < uint (sh_vaddr example_sec2) + uint (sh_size example_sec2)"
    "uint (sy_value sym_anon2) < uint (sh_vaddr example_sec2) + uint (sh_size example_sec2)"
    by (simp_all add: sym_foo_def sym_anon2_def example_sec2_def)
  have h1: "{0x1004, 0x1002, 0x1006} = (\<lambda>t. uint (sy_value t)) `
      {t \<in> set (symbols example_coff). sy_type t = 4 \<and> sy_value sym_foo < sy_value t}"
  proof -
    have "(\<lambda>t. uint (sy_value t)) `
        {t \<in> set (symbols example_coff). sy_type t = 4 \<and> sy_value sym_foo < sy_value t} =
      set (map (\<lambda>t. uint (sy_value t))
        (filter (\<lambda>t. sy_type t = 4 \<and> sy_value sym_foo < sy_value t) (symbols example_coff)))"
      by simp
    also have "filter (\<lambda>t. sy_type t = 4 \<and> sy_value sym_foo < sy_value t)
        (symbols example_coff) = [sym_main, sym_anon1, sym_anon2]"
      by (simp add: example_coff_simps example_defs)
    finally show ?thesis by (simp add: example_defs)
  qed
  have h2: "{} = (\<lambda>t. uint (sy_value t)) `
      {t \<in> set (symbols example_coff). sy_type t = 4 \<and> sy_value sym_anon2 < sy_value t}"
  proof -
    have "(\<lambda>t. uint (sy_value t)) `
        {t \<in> set (symbols example_coff). sy_type t = 4 \<and> sy_value sym_anon2 < sy_value t} =
      set (map (\<lambda>t. uint (sy_value t))
        (filter (\<lambda>t. sy_type t = 4 \<and> sy_value sym_anon2 < sy_value t)
          (symbols example_coff)))"
      by simp
    also have "filter (\<lambda>t. sy_type t = 4 \<and> sy_value sym_anon2 < sy_value t)
        (symbols example_coff) = []"
      by (simp add: example_coff_simps example_defs)
    finally show ?thesis by simp
  qed
  from symboldata_offset_and_span [OF n(1,2) S(1) lo(1) hi(1) h1 refl refl]
    symboldata_offset_and_span [OF n(3,4) S(2) lo(2) hi(2) h2 refl refl]
  show ?thesis
    by (simp add: example_coff_simps example_sec2_def sym_foo_def sym_anon2_def
        example_bytes_def Let_def fread_def)
qed

text \<open>
  C1, as the code has it. \<open>symboldata\<close> raises \<open>IndexError\<close> exactly when
  the section number is greater than the number of sections, or is 0 while
  there is no section at all. With section number 0 and a section list that is
  not empty the index is \<open>-1\<close>, and the symbol is read against the last
  section.
\<close>

theorem symboldata_range_error:
  "(symboldata c symbol = Inl IndexError \<longleftrightarrow>
      (sy_scnum symbol = 0 \<and> sechdr c = []) \<or> length (sechdr c) < unat (sy_scnum symbol)) \<and>
   (sy_scnum symbol = 0 \<and> sechdr c \<noteq> [] \<longrightarrow>
      symboldata c symbol =
        (case fseek (cfile c)
                (uint (sh_scnptr (last (sechdr c))) + uint (sy_value symbol) -
                 uint (sh_vaddr (last (sechdr c)))) of
           Inl e \<Rightarrow> Inl e
         | Inr fl1 \<Rightarrow>
             (case fread fl1
                     (nextsymb_loop (symbols c) symbol 0xffffffff - uint (sy_value symbol)) of
                (bs, fl2) \<Rightarrow> Inr (bs, c\<lparr>cfile := fl2\<rparr>))))"
proof -
  have u: "uint (sy_scnum symbol) = int (unat (sy_scnum symbol))" by simp
  have z: "unat (sy_scnum symbol) = 0 \<longleftrightarrow> sy_scnum symbol = 0"
    by (simp add: unat_eq_0)
  have "symboldata c symbol = Inl IndexError \<longleftrightarrow>
      py_index (sechdr c) (uint (sy_scnum symbol) - 1) = Inl IndexError"
    by (auto simp: symboldata_def fseek_def Let_def split: sum.splits prod.splits if_splits)
  then have a: "symboldata c symbol = Inl IndexError \<longleftrightarrow>
      (sy_scnum symbol = 0 \<and> sechdr c = []) \<or> length (sechdr c) < unat (sy_scnum symbol)"
    unfolding u py_index_IndexError_iff z .
  have b: "symboldata c symbol =
        (case fseek (cfile c)
                (uint (sh_scnptr (last (sechdr c))) + uint (sy_value symbol) -
                 uint (sh_vaddr (last (sechdr c)))) of
           Inl e \<Rightarrow> Inl e
         | Inr fl1 \<Rightarrow>
             (case fread fl1
                     (nextsymb_loop (symbols c) symbol 0xffffffff - uint (sy_value symbol)) of
                (bs, fl2) \<Rightarrow> Inr (bs, c\<lparr>cfile := fl2\<rparr>)))"
    if "sy_scnum symbol = 0" "sechdr c \<noteq> []"
    using that by (simp add: symboldata_def py_index_minus_one Let_def split: sum.split)
  from a b show ?thesis by blast
qed

theorem symboldata_range_error_witness:
  "sy_scnum sym_ext = 0 \<and> sechdr example_coff \<noteq> [] \<and>
   last (sechdr example_coff) = example_sec2 \<and>
   symboldata example_coff sym_ext =
     Inr (''GH'', example_coff\<lparr>cfile := \<lparr>fdata = example_bytes, fpos = 248\<rparr>\<rparr>) \<and>
   symboldata (example_coff\<lparr>sechdr := []\<rparr>) sym_ext = Inl IndexError \<and>
   symboldata (example_coff\<lparr>sechdr := [example_sec1]\<rparr>) sym_foo = Inl IndexError"
proof -
  have a: "sy_scnum sym_ext = 0 \<and> sechdr example_coff \<noteq> []"
    by (simp add: sym_ext_def example_coff_simps)
  from a symboldata_range_error [of example_coff sym_ext]
    symboldata_range_error [of "example_coff\<lparr>sechdr := []\<rparr>" sym_ext]
    symboldata_range_error [of "example_coff\<lparr>sechdr := [example_sec1]\<rparr>" sym_foo]
  show ?thesis
    by (simp add: example_coff_simps example_defs fseek_def fread_def example_bytes_def Let_def)
qed

text \<open>
  C1, as the specification words it, fails: in the parsed example the symbol
  \<open>ext\<close> has section number 0, and \<open>symboldata\<close> returns bytes of the
  second, last section for it.
\<close>

theorem undefined_section_counterexample:
  "Coff_init \<lparr>fdata = example_bytes, fpos = 0\<rparr> = Some (Inr example_coff) \<and>
   sy_scnum sym_ext = 0 \<and>
   symboldata example_coff sym_ext =
     Inr (''GH'', example_coff\<lparr>cfile := \<lparr>fdata = example_bytes, fpos = 248\<rparr>\<rparr>)"
proof -
  have "symboldata example_coff sym_ext =
      Inr (''GH'', example_coff\<lparr>cfile := \<lparr>fdata = example_bytes, fpos = 248\<rparr>\<rparr>)"
    by (simp add: symboldata_def py_index_def example_coff_simps example_defs fseek_def
        fread_def example_bytes_def Let_def)
  moreover have "sy_scnum sym_ext = 0" by (simp add: sym_ext_def)
  ultimately show ?thesis using example_parse by blast
qed

section \<open>The data of a section\<close>

text \<open>
  C8, as the code has it. \<open>sectiondata(n)\<close> takes the first section in
  section order whose name without trailing null bytes equals \<open>n\<close>, byte by
  byte, and returns the bytes the file has from that section's \<open>scnptr\<close> on,
  at most \<open>size\<close> of them: exactly \<open>size\<close> bytes when the file has that
  many from there, fewer otherwise. It returns \<open>None\<close> when no section has
  that name, and leaves the file alone then.
\<close>

theorem sectiondata_first_match:
  "sectiondata c sname =
     (case find (\<lambda>s. sh_name s = sname) (sechdr c) of
        None \<Rightarrow> Inr (None, c)
      | Some S \<Rightarrow>
          (let bs = take (unat (sh_size S)) (drop (unat (sh_scnptr S)) (fdata (cfile c)))
           in Inr (Some bs, c\<lparr>cfile := (cfile c)\<lparr>fpos := unat (sh_scnptr S) + length bs\<rparr>\<rparr>))) \<and>
   (find (\<lambda>s. sh_name s = sname) (sechdr c) = None \<longleftrightarrow>
      sname \<notin> sh_name ` set (sechdr c))"
proof -
  have "sectiondata c sname =
     (case find (\<lambda>s. sh_name s = sname) (sechdr c) of
        None \<Rightarrow> Inr (None, c)
      | Some S \<Rightarrow>
          (let bs = take (unat (sh_size S)) (drop (unat (sh_scnptr S)) (fdata (cfile c)))
           in Inr (Some bs, c\<lparr>cfile := (cfile c)\<lparr>fpos := unat (sh_scnptr S) + length bs\<rparr>\<rparr>)))"
    by (simp add: sectiondata_def sectiondata_loop_find Let_def split: option.splits)
  moreover have "find (\<lambda>s. sh_name s = sname) (sechdr c) = None \<longleftrightarrow>
      sname \<notin> sh_name ` set (sechdr c)"
    by (auto simp: find_None_iff)
  ultimately show ?thesis by blast
qed

text \<open>
  C8, as the specification words it, fails: in the parsed example the two
  sections named \<open>.text\<close> have sizes 256 and 8, and \<open>sectiondata\<close>
  returns the 4 bytes that the file has from offset 244 on.
\<close>

theorem sectiondata_short_read_counterexample:
  "Coff_init \<lparr>fdata = example_bytes, fpos = 0\<rparr> = Some (Inr example_coff) \<and>
   filter (\<lambda>s. sh_name s = ''.text'') (sechdr example_coff) = [example_sec1, example_sec2] \<and>
   unat (sh_size example_sec1) = 256 \<and> unat (sh_size example_sec2) = 8 \<and>
   sectiondata example_coff ''.text'' =
     Inr (Some ''EFGH'', example_coff\<lparr>cfile := \<lparr>fdata = example_bytes, fpos = 248\<rparr>\<rparr>)"
proof -
  have "sectiondata example_coff ''.text'' =
      Inr (Some ''EFGH'', example_coff\<lparr>cfile := \<lparr>fdata = example_bytes, fpos = 248\<rparr>\<rparr>)"
    by (simp add: sectiondata_def example_coff_simps example_defs sh_name_def rstrip_nul_def
        fseek_def fread_def example_bytes_def Let_def)
  moreover have "filter (\<lambda>s. sh_name s = ''.text'') (sechdr example_coff) =
      [example_sec1, example_sec2]"
    by (simp add: example_coff_simps example_defs sh_name_def rstrip_nul_def)
  moreover have "unat (sh_size example_sec1) = 256 \<and> unat (sh_size example_sec2) = 8"
    by (simp add: example_defs)
  ultimately show ?thesis using example_parse by blast
qed

section \<open>The module extractor's check of the magic\<close>

text \<open>
  C9. When \<open>extractcoff.py\<close> is run on an input file whose first 4 bytes are
  not \<open>MTCH\<close> (also a file of fewer than 4 bytes), it prints
  \<open>Invalid MTC file!\<close> and leaves with exit status 1. Nothing else is
  printed and no file is created or changed: the output path is never opened.
\<close>

theorem bad_magic_rejected:
  assumes "1 < length argv" and "CHR 0x00 \<notin> set (argv ! 1)"
    and "files w (argv ! 1) = Some bytes"
    and "take 4 bytes \<noteq> ''MTCH''"
  shows "extractcoff_main argv w = (Exit 1, print_line w ''Invalid MTC file!'') \<and>
         files (snd (extractcoff_main argv w)) = files w \<and>
         stdout (snd (extractcoff_main argv w)) = stdout w @ [''Invalid MTC file!'']"
proof -
  from assms(1) have i: "py_index argv 1 = Inr (argv ! 1)"
    by (simp add: py_index_def)
  from assms(2,3) have op: "open_r w (argv ! 1) = Inr \<lparr>fdata = bytes, fpos = 0\<rparr>"
    by (simp add: open_r_def)
  have "extractcoff_main argv w = (Exit 1, print_line w ''Invalid MTC file!'')"
    unfolding extractcoff_main_def i sum.case op
    using assms(4) by (simp add: fread_def Let_def)
  then show ?thesis by (simp add: print_line_def)
qed


theorem bad_magic_rejected_witness:
  "extractcoff_main [''extractcoff.py'', ''fw.mtc'', ''out.bin''] example_world =
     (Exit 1, example_world\<lparr>stdout := [''Invalid MTC file!'']\<rparr>) \<and>
   files example_world ''out.bin'' = None \<and>
   files (snd (extractcoff_main [''extractcoff.py'', ''fw.mtc'', ''out.bin''] example_world))
     ''out.bin'' = None"
proof -
  have a: "1 < length [''extractcoff.py'', ''fw.mtc'', ''out.bin'']" by simp
  have b: "CHR 0x00 \<notin> set ([''extractcoff.py'', ''fw.mtc'', ''out.bin''] ! 1)" by simp
  have c: "files example_world ([''extractcoff.py'', ''fw.mtc'', ''out.bin''] ! 1) =
      Some ([CHR 0x7F] @ ''ELF'' @ ''payload'')"
    by (simp add: example_world_def)
  have d: "take 4 ([CHR 0x7F] @ ''ELF'' @ ''payload'') \<noteq> ''MTCH''" by simp
  from bad_magic_rejected [OF a b c d] show ?thesis
    by (simp add: example_world_def print_line_def)
qed

section \<open>Truncated input\<close>

text \<open>
  C7. For every record kind and every file, \<open>readstruct\<close> raises
  \<open>EOFError\<close> if and only if fewer bytes remain from the file's position
  than the kind's \<open>structlen\<close>. In the parser, a failure of any of its
  reads of records (the file header, the optional header, a section header, a
  relocation entry, a symbol) ends the parse at once with \<open>EOFError\<close> as
  its result; and whenever the parser does return a container, every record
  it decoded lay in the file with all its bytes. So no container is returned
  for a file that cuts one of these records short.
\<close>

theorem truncated_record_aborts_parse:
  "(readstruct T fl = Inl EOFError \<longleftrightarrow> length (fdata fl) - fpos fl < structlen T) \<and>
   (readstruct FileHdr_type fl0 = Inl e \<longrightarrow> Coff_init fl0 = Some (Inl EOFError)) \<and>
   (readstruct FileHdr_type fl0 = Inr (fh, fl1) \<longrightarrow>
    read_opthdr fh fl1 = Inl e \<longrightarrow> Coff_init fl0 = Some (Inl EOFError)) \<and>
   (readstruct FileHdr_type fl0 = Inr (fh, fl1) \<longrightarrow>
    read_opthdr fh fl1 = Inr (oh, fl2) \<longrightarrow>
    readstructs SecHdr_type (unat (fh_nscns fh)) fl2 = Inl e \<longrightarrow>
      Coff_init fl0 = Some (Inl EOFError)) \<and>
   (readstruct FileHdr_type fl0 = Inr (fh, fl1) \<longrightarrow>
    read_opthdr fh fl1 = Inr (oh, fl2) \<longrightarrow>
    readstructs SecHdr_type (unat (fh_nscns fh)) fl2 = Inr (secs, fl3) \<longrightarrow>
    reloc_loop (relocsecs secs) fl3 Map.empty = Inl e \<longrightarrow>
      Coff_init fl0 = Some (Inl EOFError)) \<and>
   (readstruct FileHdr_type fl0 = Inr (fh, fl1) \<longrightarrow>
    read_opthdr fh fl1 = Inr (oh, fl2) \<longrightarrow>
    readstructs SecHdr_type (unat (fh_nscns fh)) fl2 = Inr (secs, fl3) \<longrightarrow>
    reloc_loop (relocsecs secs) fl3 Map.empty = Inr (rel, fl4) \<longrightarrow>
    readstructs SymentHdr_type (unat (fh_nsyms fh)) (fl4\<lparr>fpos := unat (fh_symptr fh)\<rparr>) = Inl e \<longrightarrow>
      Coff_init fl0 = Some (Inl EOFError)) \<and>
   (Coff_init fl0 = Some (Inr c) \<longrightarrow>
      22 \<le> length (fdata fl0) - fpos fl0 \<and>
      (fh_opthdr (filehdr c) \<noteq> 0 \<longrightarrow> 28 \<le> length (fdata fl0) - (fpos fl0 + 22)) \<and>
      (\<forall>i < length (sechdr c).
         48 \<le> length (fdata fl0) -
                (fpos fl0 + 22 + (if fh_opthdr (filehdr c) \<noteq> 0 then 28 else 0) + i * 48)) \<and>
      (\<forall>s \<in> set (sechdr c). sh_relptr s \<noteq> 0 \<longrightarrow>
         (\<forall>i < unat (sh_nreloc s).
            12 \<le> length (fdata fl0) - (unat (sh_relptr s) + i * 12))) \<and>
      (\<forall>i < length (symbols c).
         18 \<le> length (fdata fl0) - (unat (fh_symptr (filehdr c)) + i * 18)))"
proof -
  have a: "readstruct T fl = Inl EOFError \<longleftrightarrow> length (fdata fl) - fpos fl < structlen T"
    by (rule readstruct_EOFError_iff)
  have b1: "Coff_init fl0 = Some (Inl EOFError)" if "readstruct FileHdr_type fl0 = Inl e"
    using that readstruct_Inl [OF construct_total(1) that] by (simp add: Coff_init_def)
  have b2: "Coff_init fl0 = Some (Inl EOFError)"
    if "readstruct FileHdr_type fl0 = Inr (fh, fl1)" "read_opthdr fh fl1 = Inl e"
    using that read_opthdr_Inl [OF that(2)] by (simp add: Coff_init_def)
  have b3: "Coff_init fl0 = Some (Inl EOFError)"
    if "readstruct FileHdr_type fl0 = Inr (fh, fl1)" "read_opthdr fh fl1 = Inr (oh, fl2)"
      "readstructs SecHdr_type (unat (fh_nscns fh)) fl2 = Inl e"
    using that readstructs_Inl [OF construct_total(3) that(3)] by (simp add: Coff_init_def)
  have b4: "Coff_init fl0 = Some (Inl EOFError)"
    if "readstruct FileHdr_type fl0 = Inr (fh, fl1)" "read_opthdr fh fl1 = Inr (oh, fl2)"
      "readstructs SecHdr_type (unat (fh_nscns fh)) fl2 = Inr (secs, fl3)"
      "reloc_loop (relocsecs secs) fl3 Map.empty = Inl e"
    using that reloc_loop_Inl [OF that(4)] by (simp add: Coff_init_def)
  have b5: "Coff_init fl0 = Some (Inl EOFError)"
    if "readstruct FileHdr_type fl0 = Inr (fh, fl1)" "read_opthdr fh fl1 = Inr (oh, fl2)"
      "readstructs SecHdr_type (unat (fh_nscns fh)) fl2 = Inr (secs, fl3)"
      "reloc_loop (relocsecs secs) fl3 Map.empty = Inr (rel, fl4)"
      "readstructs SymentHdr_type (unat (fh_nsyms fh)) (fl4\<lparr>fpos := unat (fh_symptr fh)\<rparr>) = Inl e"
    using that readstructs_Inl [OF construct_total(5) that(5)]
    by (simp add: Coff_init_def fseek_uint)
  have d: "22 \<le> length (fdata fl0) - fpos fl0 \<and>
      (fh_opthdr (filehdr c) \<noteq> 0 \<longrightarrow> 28 \<le> length (fdata fl0) - (fpos fl0 + 22)) \<and>
      (\<forall>i < length (sechdr c).
         48 \<le> length (fdata fl0) -
                (fpos fl0 + 22 + (if fh_opthdr (filehdr c) \<noteq> 0 then 28 else 0) + i * 48)) \<and>
      (\<forall>s \<in> set (sechdr c). sh_relptr s \<noteq> 0 \<longrightarrow>
         (\<forall>i < unat (sh_nreloc s).
            12 \<le> length (fdata fl0) - (unat (sh_relptr s) + i * 12))) \<and>
      (\<forall>i < length (symbols c).
         18 \<le> length (fdata fl0) - (unat (fh_symptr (filehdr c)) + i * 18))"
    if p: "Coff_init fl0 = Some (Inr c)"
  proof -
    note lay = Coff_init_layout [OF p]
    from lay(1) have d1: "22 \<le> length (fdata fl0) - fpos fl0"
      by (simp add: record_at_def structlen_values split: if_splits)
    have d2: "28 \<le> length (fdata fl0) - (fpos fl0 + 22)" if "fh_opthdr (filehdr c) \<noteq> 0"
    proof -
      from p obtain fl1 fl2 where
        s1: "readstruct FileHdr_type fl0 = Inr (filehdr c, fl1)" and
        s2: "read_opthdr (filehdr c) fl1 = Inr (opthdr c, fl2)"
        by (rule Coff_init_stages)
      from s1 have "fdata fl1 = fdata fl0" "fpos fl1 = fpos fl0 + 22"
        by (simp_all add: readstruct_Inr_iff structlen_values)
      with read_opthdr_Inr(4) [OF s2 that] show ?thesis by simp
    qed
    have nsec: "length (sechdr c) = unat (fh_nscns (filehdr c))"
      using lay(3) records_at_length [of SecHdr_type] by (metis length_map)
    have nsym: "length (symbols c) = unat (fh_nsyms (filehdr c))"
      using lay(4) records_at_length [of SymentHdr_type] by (metis length_map)
    have d3: "48 \<le> length (fdata fl0) -
        (fpos fl0 + 22 + (if fh_opthdr (filehdr c) \<noteq> 0 then 28 else 0) + i * 48)"
      if "i < length (sechdr c)" for i
      using records_at_complete [OF lay(3)] that nsec by (simp add: structlen_values)
    have d5: "18 \<le> length (fdata fl0) - (unat (fh_symptr (filehdr c)) + i * 18)"
      if "i < length (symbols c)" for i
      using records_at_complete [OF lay(4)] that nsym by (simp add: structlen_values)
    have d4: "12 \<le> length (fdata fl0) - (unat (sh_relptr s) + i * 12)"
      if "s \<in> set (sechdr c)" "sh_relptr s \<noteq> 0" "i < unat (sh_nreloc s)" for s i
    proof -
      from lay(5) obtain fl3 fl4 where
        fd: "fdata fl3 = fdata fl0" and
        r: "reloc_loop (relocsecs (sechdr c)) fl3 Map.empty = Inr (reloc c, fl4)" by blast
      from that(1,2) have "(sh_name s, sh_relptr s, sh_nreloc s) \<in> set (relocsecs (sechdr c))"
        by (auto simp: relocsecs_def)
      from reloc_loop_complete [OF r this] fd obtain es where
        "map Some es = records_at RelocHdr_type (fdata fl0) (unat (sh_relptr s))
           (unat (sh_nreloc s))" by auto
      from records_at_complete [OF this that(3)] show ?thesis
        by (simp add: structlen_values)
    qed
    from d1 d2 d3 d4 d5 show ?thesis by blast
  qed
  from a b1 b2 b3 b4 b5 d show ?thesis by blast
qed


theorem truncated_record_aborts_parse_witness:
  "readstruct FileHdr_type \<lparr>fdata = take 100 example_bytes, fpos = 0\<rparr> =
     Inr (filehdr example_coff, \<lparr>fdata = take 100 example_bytes, fpos = 22\<rparr>) \<and>
   read_opthdr (filehdr example_coff) \<lparr>fdata = take 100 example_bytes, fpos = 22\<rparr> =
     Inr (None, \<lparr>fdata = take 100 example_bytes, fpos = 22\<rparr>) \<and>
   readstructs SecHdr_type (unat (fh_nscns (filehdr example_coff)))
     \<lparr>fdata = take 100 example_bytes, fpos = 22\<rparr> = Inl EOFError \<and>
   Coff_init \<lparr>fdata = take 100 example_bytes, fpos = 0\<rparr> = Some (Inl EOFError) \<and>
   Coff_init \<lparr>fdata = example_bytes, fpos = 0\<rparr> = Some (Inr example_coff) \<and>
   length example_bytes = 248"
proof -
  have h1: "readstruct FileHdr_type \<lparr>fdata = take 100 example_bytes, fpos = 0\<rparr> =
      Inr (filehdr example_coff, \<lparr>fdata = take 100 example_bytes, fpos = 22\<rparr>)"
    by (simp add: parse_defs example_coff_def example_bytes_def)
  have h2: "read_opthdr (filehdr example_coff) \<lparr>fdata = take 100 example_bytes, fpos = 22\<rparr> =
      Inr (None, \<lparr>fdata = take 100 example_bytes, fpos = 22\<rparr>)"
    by (simp add: read_opthdr_def example_coff_simps)
  have h3: "readstructs SecHdr_type (unat (fh_nscns (filehdr example_coff)))
      \<lparr>fdata = take 100 example_bytes, fpos = 22\<rparr> = Inl EOFError"
    by (simp add: parse_defs example_coff_simps example_bytes_def)
  note t = truncated_record_aborts_parse
  from t [THEN conjunct2, THEN conjunct2, THEN conjunct2, THEN conjunct1, rule_format,
      OF h1 h2 h3]
  have r: "Coff_init \<lparr>fdata = take 100 example_bytes, fpos = 0\<rparr> = Some (Inl EOFError)" .
  have l: "length example_bytes = 248" by (simp add: example_bytes_def)
  from h1 h2 h3 r l example_parse show ?thesis by blast
qed

section \<open>The driver's selection, order and names\<close>

text \<open>
  C5. The list the driver works through holds exactly the symbol-table entries
  with type 4 and section number 2, each as often as the table has it, in
  ascending order of value, entries of equal value in table order. The driver
  takes them in this order, one turn each. A turn resolves the name, prints
  \<open>Doing symbol\<close> with it, opens \<open>func/\<close> plus the name and writes the
  bytes of \<open>symboldata\<close> there. The name is the resolved one, and for an
  entry that neither its inline name nor the string table resolves it is
  \<open>unknown\<close> followed by 1 plus the number of such entries before it: the
  counter starts at 1 and has moved once for each placeholder given.

  The run ends without an exception exactly when no turn has one, and then
  every entry has had its turn: all lines are printed, all files written and
  the counter is 1 plus the number of unresolved entries. Otherwise the run
  ends with the exception of the first turn that has one: the turns before it
  are complete, and of that turn the line is there if the name was resolved,
  and the file, empty, if it was opened. An entry with an 8-byte raw name is
  unresolved exactly when the first word of the raw name is 0 and the second
  is no offset of the string table.
\<close>

theorem driver_selects_sorts_and_names:
  assumes "driver c w = (r, (c', idx', w'))"
  shows "mset (driver_symbols c) =
           filter_mset (\<lambda>s. sy_type s = 4 \<and> sy_scnum s = 2) (mset (symbols c)) \<and>
         sorted (map sy_value (driver_symbols c)) \<and>
         (\<forall>v. filter (\<lambda>s. sy_value s = v) (driver_symbols c) =
               filter (\<lambda>s. sy_value s = v)
                 (filter (\<lambda>s. sy_type s = 4 \<and> sy_scnum s = 2) (symbols c))) \<and>
         (r = None \<longleftrightarrow>
            (\<forall>j<length (driver_symbols c). turn_failure c w 1 (driver_symbols c) j = None)) \<and>
         (\<exists>k\<le>length (driver_symbols c).
            (\<forall>j<k. turn_failure c w 1 (driver_symbols c) j = None) \<and>
            (k = length (driver_symbols c) \<longrightarrow> r = None) \<and>
            (k < length (driver_symbols c) \<longrightarrow>
               r = turn_failure c w 1 (driver_symbols c) k \<and> r \<noteq> None) \<and>
            stdout w' =
              stdout w @
              map (\<lambda>j. ''Doing symbol '' @ assigned_name c 1 (driver_symbols c) j)
                [0..<(if k < length (driver_symbols c) \<and> resolves c (driver_symbols c ! k)
                      then Suc k else k)] \<and>
            idx' =
              1 + length (filter (unresolved c)
                    (take (if k < length (driver_symbols c) \<and>
                              resolves c (driver_symbols c ! k)
                           then Suc k else k) (driver_symbols c))) \<and>
            files w' =
              (if k < length (driver_symbols c) \<and> turn_opens c w 1 (driver_symbols c) k
               then (foldl (\<lambda>m j. m(turn_path c 1 (driver_symbols c) j \<mapsto>
                                       turn_bytes c (driver_symbols c ! j)))
                       (files w) [0..<k])
                    (turn_path c 1 (driver_symbols c) k \<mapsto> [])
               else foldl (\<lambda>m j. m(turn_path c 1 (driver_symbols c) j \<mapsto>
                                      turn_bytes c (driver_symbols c ! j)))
                      (files w) [0..<k]) \<and>
            writable w' = writable w \<and>
            c' = c\<lparr>cfile := cfile c'\<rparr> \<and> fdata (cfile c') = fdata (cfile c)) \<and>
         (\<forall>s. length (sy_orig_name s) = 8 \<longrightarrow>
            (unresolved c s \<longleftrightarrow>
               le_nat (take 4 (sy_orig_name s)) = 0 \<and>
               int (le_nat (take 4 (drop 4 (sy_orig_name s)))) \<notin> fst ` set (strings c)))"
proof -
  let ?W = "driver_symbols c"
  have a: "mset ?W = filter_mset (\<lambda>s. sy_type s = 4 \<and> sy_scnum s = 2) (mset (symbols c))"
    by (simp add: driver_symbols_def)
  have b: "sorted (map sy_value ?W)"
    by (simp add: driver_symbols_def)
  have s: "filter (\<lambda>s. sy_value s = v) ?W =
      filter (\<lambda>s. sy_value s = v)
        (filter (\<lambda>s. sy_type s = 4 \<and> sy_scnum s = 2) (symbols c))" for v
    unfolding driver_symbols_def by (rule sort_key_stable)
  from assms have run: "driver_loop ?W (c, 1, w) = (r, (c', idx', w'))"
    by (simp add: driver_def)
  note l = driver_loop_described [OF run]
  from l obtain k where k: "k \<le> length ?W"
    and clean: "\<forall>j<k. turn_failure c w 1 ?W j = None"
    and fin: "k = length ?W \<longrightarrow> r = None"
    and fail: "k < length ?W \<longrightarrow> r = turn_failure c w 1 ?W k \<and> r \<noteq> None"
    by blast
  have n: "r = None \<longleftrightarrow> (\<forall>j<length ?W. turn_failure c w 1 ?W j = None)"
  proof
    assume "r = None"
    with fail k have "k = length ?W" by (cases "k < length ?W") auto
    with clean show "\<forall>j<length ?W. turn_failure c w 1 ?W j = None" by simp
  next
    assume all: "\<forall>j<length ?W. turn_failure c w 1 ?W j = None"
    show "r = None"
    proof (cases "k < length ?W")
      case True
      with fail all show ?thesis by auto
    next
      case False
      with k fin show ?thesis by simp
    qed
  qed
  have u: "unresolved c s \<longleftrightarrow>
       le_nat (take 4 (sy_orig_name s)) = 0 \<and>
       int (le_nat (take 4 (drop 4 (sy_orig_name s)))) \<notin> fst ` set (strings c)"
    if "length (sy_orig_name s) = 8" for s
    using that by (rule unresolved_iff)
  from a b s n l u show ?thesis by blast
qed

theorem driver_selects_sorts_and_names_witness:
  "driver example_coff example_world =
     (None,
      (example_coff\<lparr>cfile := \<lparr>fdata = example_bytes, fpos = 248\<rparr>\<rparr>, 3,
       \<lparr>stdout = [''Doing symbol foo'', ''Doing symbol unknown1'', ''Doing symbol main'',
                  ''Doing symbol unknown2''],
        files = (files example_world)
                  (''func/foo'' \<mapsto> ''AB'', ''func/unknown1'' \<mapsto> ''CD'',
                   ''func/main'' \<mapsto> ''EF'', ''func/unknown2'' \<mapsto> ''GH''),
        writable = (\<lambda>path. True)\<rparr>)) \<and>
   driver example_coff example_world_ro =
     (Some IOError,
      (example_coff\<lparr>cfile := \<lparr>fdata = example_bytes, fpos = 244\<rparr>\<rparr>, 2,
       \<lparr>stdout = [''Doing symbol foo'', ''Doing symbol unknown1'', ''Doing symbol main''],
        files = (files example_world_ro)
                  (''func/foo'' \<mapsto> ''AB'', ''func/unknown1'' \<mapsto> ''CD''),
        writable = (\<lambda>path. path \<noteq> ''func/main'')\<rparr>)) \<and>
   symbols example_coff = [sym_main, sym_foo, sym_anon1, sym_ext, sym_anon2] \<and>
   driver_symbols example_coff = [sym_foo, sym_anon1, sym_main, sym_anon2] \<and>
   map sy_value (driver_symbols example_coff) = [0x1000, 0x1002, 0x1004, 0x1006] \<and>
   turn_failure example_coff example_world_ro 1 (driver_symbols example_coff) 2 =
     Some IOError"
proof -
  have v: "map sy_value [sym_foo, sym_anon1, sym_main, sym_anon2] =
      [0x1000, 0x1002, 0x1004, 0x1006]"
    by (simp add: example_defs)
  have f: "turn_failure example_coff example_world_ro 1
      [sym_foo, sym_anon1, sym_main, sym_anon2] 2 = Some IOError"
    by (simp add: turn_failure_def turn_path_def assigned_name_def resolve_name_def
        sy_name_def struct_unpack_def calcsize_def rstrip_nul_def example_defs
        example_world_ro_def)
  from driver_selects_sorts_and_names [OF example_driver_run]
    driver_selects_sorts_and_names [OF example_driver_abort]
    example_driver_run example_driver_abort example_driver_symbols v f
  show ?thesis by (simp add: example_coff_simps)
qed

end
